theory Spec2Isabelle
  imports Main "HOL-Library.Word" "HOL-Library.Sublist"
begin

section \<open>Strings\<close>

text \<open>
  A \<^verbatim>\<open>QString\<close> is a sequence of \<^verbatim>\<open>QChar\<close>s, and a \<^verbatim>\<open>QChar\<close> is one 16-bit UTF-16 code
  unit; \<^verbatim>\<open>QString::length()\<close> counts code units. \<open>QS\<close> embeds a Latin-1 literal, as the
  source's string literals are converted.
\<close>

type_synonym QChar = "16 word"
type_synonym QString = "QChar list"

definition QC :: "char \<Rightarrow> QChar" where
  "QC c = of_char c"

definition QS :: "string \<Rightarrow> QString" where
  "QS s = map QC s"

section \<open>Filename sanitisation\<close>

text \<open>
  \<^verbatim>\<open>QString badFilenameChars = "\"\\/?<>:*|!";\<close> (line 246): the ten characters
  double quote, backslash, slash, question mark, less, greater, colon, star, bar and
  exclamation mark.
\<close>

definition badFilenameChars :: QString where
  "badFilenameChars =
     QS [CHR 0x22, CHR 0x5C, CHR ''/'', CHR ''?'', CHR ''<'', CHR ''>'', CHR '':'', CHR ''*'',
         CHR ''|'', CHR ''!'']"

text \<open>
  \<^verbatim>\<open>FS::RemoveInvalidFilenameChars\<close> (lines 248-258). The \<^verbatim>\<open>for\<close> loop runs the index \<open>i\<close>
  from 0 while \<open>i < string.length()\<close> and overwrites \<open>string[i]\<close> in place when
  \<^verbatim>\<open>badFilenameChars.contains(string[i])\<close> (case sensitive). The index is always in range
  when the element is read or written.
\<close>

function RemoveInvalidFilenameChars_loop :: "nat \<Rightarrow> QString \<Rightarrow> QChar \<Rightarrow> QString" where
  "RemoveInvalidFilenameChars_loop i string replaceWith =
     (if i < length string
      then RemoveInvalidFilenameChars_loop (i + 1)
             (if string ! i \<in> set badFilenameChars then string[i := replaceWith] else string)
             replaceWith
      else string)"
  by pat_completeness auto
termination
  by (relation "measure (\<lambda>(i, s, c). length s - i)") auto

declare RemoveInvalidFilenameChars_loop.simps [simp del]

definition RemoveInvalidFilenameChars :: "QString \<Rightarrow> QChar \<Rightarrow> QString" where
  "RemoveInvalidFilenameChars string replaceWith =
     RemoveInvalidFilenameChars_loop 0 string replaceWith"

section \<open>Paths\<close>

text \<open>
  The build target decides \<^verbatim>\<open>QDir::separator()\<close> and the \<^verbatim>\<open>#if defined Q_OS_...\<close> branches
  of the source.
\<close>

datatype platform = Linux | Windows | OtherUnix

definition QDir_separator :: "platform \<Rightarrow> QChar" where
  "QDir_separator os = (if os = Windows then QC (CHR 0x5C) else QC CHR ''/'')"

text \<open>\<^verbatim>\<open>QString::split(sep)\<close>, keeping empty parts, and \<^verbatim>\<open>QStringList::join(sep)\<close>.\<close>

primrec QString_split :: "QChar \<Rightarrow> QString \<Rightarrow> QString list" where
  "QString_split sep [] = [[]]"
| "QString_split sep (c # cs) =
     (if c = sep then [] # QString_split sep cs
      else (case QString_split sep cs of [] \<Rightarrow> [[c]] | s # ss \<Rightarrow> (c # s) # ss))"

fun QStringList_join :: "QString list \<Rightarrow> QString \<Rightarrow> QString" where
  "QStringList_join [] sep = []"
| "QStringList_join [s] sep = s"
| "QStringList_join (s # t # ss) sep = s @ sep @ QStringList_join (t # ss) sep"

text \<open>
  Modelled from the spec: \<^verbatim>\<open>QDir::cleanPath\<close> is code of the Qt library, not of this
  repository. The spec says of it: canonicalize (collapse \<^verbatim>\<open>.\<close>, \<^verbatim>\<open>..\<close> and duplicate
  separators). The model follows Qt's documentation: native separators become \<^verbatim>\<open>/\<close>,
  empty and \<^verbatim>\<open>.\<close> segments are dropped, a \<^verbatim>\<open>..\<close> removes the segment before it when there is
  one that is not itself \<^verbatim>\<open>..\<close> and is kept otherwise, a trailing separator is dropped, and a
  relative path that cancels out is \<^verbatim>\<open>.\<close>. A path is rooted when it starts with \<^verbatim>\<open>/\<close>;
  drive letters and UNC prefixes of Windows are outside the model.
\<close>

fun normalize_segments :: "QString list \<Rightarrow> QString list \<Rightarrow> QString list" where
  "normalize_segments [] kept = rev kept"
| "normalize_segments (s # ss) kept =
     (if s = [] \<or> s = QS ''.'' then normalize_segments ss kept
      else if s = QS ''..'' then
        (case kept of
           [] \<Rightarrow> normalize_segments ss [s]
         | t # ts \<Rightarrow> if t = QS ''..'' then normalize_segments ss (s # kept)
                     else normalize_segments ss ts)
      else normalize_segments ss (s # kept))"

definition QDir_fromNativeSeparators :: "platform \<Rightarrow> QString \<Rightarrow> QString" where
  "QDir_fromNativeSeparators os path =
     (if os = Windows then map (\<lambda>c. if c = QC (CHR 0x5C) then QC CHR ''/'' else c) path
      else path)"

definition QDir_cleanPath :: "platform \<Rightarrow> QString \<Rightarrow> QString" where
  "QDir_cleanPath os path =
     (if path = [] then []
      else
        let name = QDir_fromNativeSeparators os path;
            body = QStringList_join (normalize_segments (QString_split (QC CHR ''/'') name) [])
                     (QS ''/'')
        in if hd name = QC CHR ''/'' then QC CHR ''/'' # body
           else if body = [] then QS ''.'' else body)"

text \<open>\<^verbatim>\<open>FS::PathCombine(path1, path2)\<close> (lines 185-192).\<close>

definition PathCombine :: "platform \<Rightarrow> QString \<Rightarrow> QString \<Rightarrow> QString" where
  "PathCombine os path1 path2 =
     (if length path1 = 0 then path2
      else if length path2 = 0 then path1
      else QDir_cleanPath os (path1 @ QDir_separator os # path2))"

text \<open>\<^verbatim>\<open>FS::PathCombine(path1, path2, path3)\<close> (lines 194-197).\<close>

definition PathCombine3 :: "platform \<Rightarrow> QString \<Rightarrow> QString \<Rightarrow> QString \<Rightarrow> QString" where
  "PathCombine3 os path1 path2 path3 = PathCombine os (PathCombine os path1 path2) path3"

text \<open>
  Modelled from the spec: \<^verbatim>\<open>QDir::isRelativePath\<close>, \<^verbatim>\<open>QDir::absolutePath\<close> and
  \<^verbatim>\<open>QDir::relativeFilePath\<close> are code of the Qt library. The spec speaks of the absolute
  form of a path and of that form relative to the working directory. The model follows Qt
  on a POSIX file system: a path is relative unless it starts with \<^verbatim>\<open>/\<close>; the absolute path
  of a \<^verbatim>\<open>QDir\<close> is its cleaned path, taken from the current directory when it is relative
  (an empty path stands for \<^verbatim>\<open>.\<close>); and \<^verbatim>\<open>relativeFilePath\<close> drops the leading elements the
  directory and the file share, climbs with one \<^verbatim>\<open>../\<close> for each element the directory has
  left, and descends along the elements the file has left (\<^verbatim>\<open>.\<close> when nothing is left).
\<close>

definition QDir_isRelativePath :: "QString \<Rightarrow> bool" where
  "QDir_isRelativePath path = (case path of [] \<Rightarrow> True | c # _ \<Rightarrow> c \<noteq> QC CHR ''/'')"

definition QDir_absolutePath :: "platform \<Rightarrow> QString \<Rightarrow> QString \<Rightarrow> QString" where
  "QDir_absolutePath os currentPath path =
     (let p = (if path = [] then QS ''.'' else path)
      in if QDir_isRelativePath p then QDir_cleanPath os (currentPath @ QC CHR ''/'' # p)
         else QDir_cleanPath os p)"

definition path_elements :: "QString \<Rightarrow> QString list" where
  "path_elements path = filter (\<lambda>s. s \<noteq> []) (QString_split (QC CHR ''/'') path)"

definition QDir_relativeFilePath :: "platform \<Rightarrow> QString \<Rightarrow> QString \<Rightarrow> QString" where
  "QDir_relativeFilePath os dirAbsolute fileName =
     (let dir = QDir_cleanPath os dirAbsolute;
          file = QDir_cleanPath os fileName
      in if QDir_isRelativePath file \<or> QDir_isRelativePath dir then file
         else
           let dirElts = path_elements dir;
               fileElts = path_elements file;
               i = length (longest_common_prefix dirElts fileElts);
               result = concat (replicate (length dirElts - i) (QS ''../''))
                          @ QStringList_join (drop i fileElts) (QS ''/'')
           in if result = [] then QS ''.'' else result)"

text \<open>
  Modelled from the spec: \<^verbatim>\<open>QFileInfo(filename).dir()\<close> is code of the Qt library; it is the
  parent directory of the file (the spec: all parent directories). The path of that
  directory is the file's path up to its last separator: \<^verbatim>\<open>.\<close> when there is none, \<^verbatim>\<open>/\<close> when
  the last separator is the leading one.
\<close>

definition QFileInfo_dir :: "QString \<Rightarrow> QString" where
  "QFileInfo_dir filename =
     (if QC CHR ''/'' \<notin> set filename then QS ''.''
      else
        let d = rev (tl (dropWhile (\<lambda>c. c \<noteq> QC CHR ''/'') (rev filename)))
        in if d = [] then QS ''/'' else d)"

text \<open>
  \<^verbatim>\<open>QString::number(int)\<close>: the decimal digits, with a minus sign for a negative number.
\<close>

fun decimal :: "nat \<Rightarrow> QString" where
  "decimal n =
     (if n < 10 then [QS ''0123456789'' ! n]
      else decimal (n div 10) @ [QS ''0123456789'' ! (n mod 10)])"

declare decimal.simps [simp del]

definition QString_number :: "int \<Rightarrow> QString" where
  "QString_number n = (if n < 0 then QC CHR ''-'' # decimal (nat (- n)) else decimal (nat n))"

section \<open>The Qt primitives\<close>

text \<open>
  The functions of the source reach the file system only through calls of Qt. Each call
  is a field of the record below, over a type \<open>'s\<close> of file-system states: a query reads
  the state, an operation returns its result and the state it leaves. The functions of the
  source are translated over an arbitrary such record, so what is proved of them holds
  whatever the file system answers.

  \<^item> \<open>QDir_currentPath\<close>: \<^verbatim>\<open>QDir::currentPath()\<close>.
  \<^item> \<open>QDir_exists\<close>: \<^verbatim>\<open>QDir(path).exists()\<close>.
  \<^item> \<open>QDir_mkpath\<close>: \<^verbatim>\<open>QDir().mkpath(path)\<close>.
  \<^item> \<open>QDir_entryList\<close>: \<^verbatim>\<open>QDir(path).entryList(Files | Dirs | NoDotAndDotDot | Hidden | System)\<close>.
  \<^item> \<open>QFileInfo_exists\<close>, \<open>QFileInfo_isSymLink\<close>, \<open>QFileInfo_isDir\<close>, \<open>QFileInfo_isFile\<close>,
    \<open>QFileInfo_symLinkTarget\<close>: the queries of \<^verbatim>\<open>QFileInfo(path)\<close>.
  \<^item> \<open>QFile_link\<close>: \<^verbatim>\<open>QFile::link(target, linkName)\<close>; \<open>QFile_copy\<close>:
    \<^verbatim>\<open>QFile::copy(fileName, newName)\<close>.
  \<^item> \<open>QFile_open\<close>: \<^verbatim>\<open>QFile(path).open(WriteOnly | Text)\<close>; \<open>QFile_write\<close>: what flushing a
    \<^verbatim>\<open>QTextStream\<close> writes to the open file; \<open>QFile_permissions\<close>, \<open>QFile_setPermissions\<close>.
  \<^item> \<open>QSaveFile_open\<close>: \<^verbatim>\<open>QSaveFile(path).open(WriteOnly)\<close>; \<open>QSaveFile_write\<close>:
    \<^verbatim>\<open>QSaveFile::write(data)\<close>, returning the number of bytes taken; \<open>QSaveFile_commit\<close>;
    \<open>QSaveFile_destroy\<close>: the destructor, which runs when \<^verbatim>\<open>FS::write\<close> returns or throws.
  \<^item> \<open>QFile_openRead\<close>: \<^verbatim>\<open>QFile(path).open(ReadOnly)\<close>; \<open>QFile_size\<close>; \<open>QFile_read\<close>:
    \<^verbatim>\<open>QFile::read(buffer, maxSize)\<close>, returning the count it reports and the bytes it stored.
\<close>

type_synonym QByteArray = "8 word list"

record 's Qt =
  QDir_currentPath :: "'s \<Rightarrow> QString"
  QDir_exists :: "'s \<Rightarrow> QString \<Rightarrow> bool"
  QDir_mkpath :: "QString \<Rightarrow> 's \<Rightarrow> bool \<times> 's"
  QDir_entryList :: "'s \<Rightarrow> QString \<Rightarrow> QString list"
  QFileInfo_exists :: "'s \<Rightarrow> QString \<Rightarrow> bool"
  QFileInfo_isSymLink :: "'s \<Rightarrow> QString \<Rightarrow> bool"
  QFileInfo_isDir :: "'s \<Rightarrow> QString \<Rightarrow> bool"
  QFileInfo_isFile :: "'s \<Rightarrow> QString \<Rightarrow> bool"
  QFileInfo_symLinkTarget :: "'s \<Rightarrow> QString \<Rightarrow> QString"
  QFile_link :: "QString \<Rightarrow> QString \<Rightarrow> 's \<Rightarrow> bool \<times> 's"
  QFile_copy :: "QString \<Rightarrow> QString \<Rightarrow> 's \<Rightarrow> bool \<times> 's"
  QFile_open :: "QString \<Rightarrow> 's \<Rightarrow> bool \<times> 's"
  QFile_write :: "QString \<Rightarrow> QString \<Rightarrow> 's \<Rightarrow> 's"
  QFile_permissions :: "'s \<Rightarrow> QString \<Rightarrow> 32 word"
  QFile_setPermissions :: "QString \<Rightarrow> 32 word \<Rightarrow> 's \<Rightarrow> bool \<times> 's"
  QSaveFile_open :: "QString \<Rightarrow> 's \<Rightarrow> bool \<times> 's"
  QSaveFile_write :: "QString \<Rightarrow> QByteArray \<Rightarrow> 's \<Rightarrow> int \<times> 's"
  QSaveFile_commit :: "QString \<Rightarrow> 's \<Rightarrow> bool \<times> 's"
  QSaveFile_destroy :: "QString \<Rightarrow> 's \<Rightarrow> 's"
  QFile_openRead :: "'s \<Rightarrow> QString \<Rightarrow> bool"
  QFile_size :: "'s \<Rightarrow> QString \<Rightarrow> int"
  QFile_read :: "'s \<Rightarrow> QString \<Rightarrow> int \<Rightarrow> int \<times> QByteArray"

section \<open>Path normalisation and unique directory names\<close>

text \<open>
  \<^verbatim>\<open>FS::NormalizePath\<close> (lines 228-244). \<^verbatim>\<open>QDir a = QDir::currentPath()\<close> is the current
  directory, \<^verbatim>\<open>QString::startsWith\<close> is the prefix test on strings.
\<close>

definition NormalizePath :: "platform \<Rightarrow> 's Qt \<Rightarrow> 's \<Rightarrow> QString \<Rightarrow> QString" where
  "NormalizePath os qt s path =
     (let a = QDir_currentPath qt s;
          currentAbsolute = QDir_absolutePath os (QDir_currentPath qt s) a;
          newAbsolute = QDir_absolutePath os (QDir_currentPath qt s) path
      in if prefix currentAbsolute newAbsolute
         then QDir_relativeFilePath os currentAbsolute newAbsolute
         else newAbsolute)"

text \<open>
  \<^verbatim>\<open>FS::DirNameFromString\<close> (lines 260-282). The \<^verbatim>\<open>do ... while\<close> loop: the body sets
  \<open>dirName\<close>, returns the empty string when \<open>num > 9000\<close>, and increments \<open>num\<close>; the loop
  goes on while the combined path exists. \<open>num\<close> is a C \<^verbatim>\<open>int\<close> that never leaves the range
  from 0 to 9001.
\<close>

function DirNameFromString_loop ::
  "platform \<Rightarrow> 's Qt \<Rightarrow> 's \<Rightarrow> QString \<Rightarrow> QString \<Rightarrow> int \<Rightarrow> QString" where
  "DirNameFromString_loop os qt s baseName inDir num =
     (let dirName = (if num = 0 then baseName else baseName @ QString_number num)
      in if num > 9000 then []
         else if QFileInfo_exists qt s (PathCombine os inDir dirName)
              then DirNameFromString_loop os qt s baseName inDir (num + 1)
              else dirName)"
  by pat_completeness auto
termination
  by (relation "measure (\<lambda>(os, qt, s, baseName, inDir, num). nat (9001 - num))") auto

declare DirNameFromString_loop.simps [simp del]

definition DirNameFromString :: "platform \<Rightarrow> 's Qt \<Rightarrow> 's \<Rightarrow> QString \<Rightarrow> QString \<Rightarrow> QString" where
  "DirNameFromString os qt s string inDir =
     DirNameFromString_loop os qt s (RemoveInvalidFilenameChars string (QC CHR ''-'')) inDir 0"

section \<open>Writing and reading files\<close>

text \<open>
  \<^verbatim>\<open>FS::FileSystemException\<close> carries a message; the model keeps which \<^verbatim>\<open>throw\<close> raised it
  and the path the message names.
\<close>

datatype FileSystemException =
    UnableToCreateDirectory QString
  | CouldntOpenForWriting QString
  | ErrorWritingData QString
  | ErrorCommittingData QString
  | UnableToOpenForReading QString
  | ErrorReadingData QString

text \<open>\<^verbatim>\<open>ensureExists(dir)\<close> (lines 12-19); \<open>dir\<close> is the path the \<^verbatim>\<open>QDir\<close> was made from.\<close>

definition ensureExists ::
  "platform \<Rightarrow> 's Qt \<Rightarrow> QString \<Rightarrow> 's \<Rightarrow> (FileSystemException + unit) \<times> 's" where
  "ensureExists os qt dir s =
     (let absolutePath = QDir_absolutePath os (QDir_currentPath qt s) dir
      in case QDir_mkpath qt absolutePath s of
           (ok, s') \<Rightarrow>
             if \<not> ok then (Inl (UnableToCreateDirectory absolutePath), s') else (Inr (), s'))"

text \<open>
  \<^verbatim>\<open>FS::write\<close> (lines 21-40). \<open>FS_write_steps\<close> returns, with the result, the states the
  file system goes through: the initial one and the one after each call of Qt, the last
  call being the destructor of the \<^verbatim>\<open>QSaveFile\<close>. \<open>FS_write\<close> is the result with the final
  state.
\<close>

definition FS_write_steps ::
  "platform \<Rightarrow> 's Qt \<Rightarrow> QString \<Rightarrow> QByteArray \<Rightarrow> 's \<Rightarrow> (FileSystemException + unit) \<times> 's list"
  where
  "FS_write_steps os qt filename data s0 =
     (case ensureExists os qt (QFileInfo_dir filename) s0 of
        (Inl e, s1) \<Rightarrow> (Inl e, [s0, s1])
      | (Inr _, s1) \<Rightarrow>
          (case QSaveFile_open qt filename s1 of
             (opened, s2) \<Rightarrow>
               if \<not> opened
               then (Inl (CouldntOpenForWriting filename),
                     [s0, s1, s2, QSaveFile_destroy qt filename s2])
               else
                 (case QSaveFile_write qt filename data s2 of
                    (written, s3) \<Rightarrow>
                      if int (length data) \<noteq> written
                      then (Inl (ErrorWritingData filename),
                            [s0, s1, s2, s3, QSaveFile_destroy qt filename s3])
                      else
                        (case QSaveFile_commit qt filename s3 of
                           (committed, s4) \<Rightarrow>
                             if \<not> committed
                             then (Inl (ErrorCommittingData filename),
                                   [s0, s1, s2, s3, s4, QSaveFile_destroy qt filename s4])
                             else (Inr (),
                                   [s0, s1, s2, s3, s4, QSaveFile_destroy qt filename s4])))))"

definition FS_write ::
  "platform \<Rightarrow> 's Qt \<Rightarrow> QString \<Rightarrow> QByteArray \<Rightarrow> 's \<Rightarrow> (FileSystemException + unit) \<times> 's" where
  "FS_write os qt filename data s =
     (case FS_write_steps os qt filename data s of (result, states) \<Rightarrow> (result, last states))"

text \<open>
  \<^verbatim>\<open>FS::read\<close> (lines 42-59). \<^verbatim>\<open>QByteArray data(int(size), 0)\<close> casts the 64-bit size to a
  32-bit \<^verbatim>\<open>int\<close> and allocates that many zero bytes (none for a negative number);
  \<^verbatim>\<open>file.read(data.data(), size)\<close> then stores what it reads at the start of the buffer. A
  read that stores more bytes than the buffer holds is undefined behaviour: the result
  \<open>None\<close>.
\<close>

definition FS_read ::
  "'s Qt \<Rightarrow> QString \<Rightarrow> 's \<Rightarrow> (FileSystemException + QByteArray) option" where
  "FS_read qt filename s =
     (if \<not> QFile_openRead qt s filename then Some (Inl (UnableToOpenForReading filename))
      else
        let size = QFile_size qt s filename;
            data = replicate (nat (sint (word_of_int size :: 32 word))) (0 :: 8 word)
        in case QFile_read qt s filename size of
             (ret, bytes) \<Rightarrow>
               if length data < length bytes then None
               else if ret = - 1 \<or> ret \<noteq> size then Some (Inl (ErrorReadingData filename))
               else Some (Inr (bytes @ drop (length bytes) data)))"

section \<open>Recursive copy\<close>

text \<open>
  \<^verbatim>\<open>FS::ensureFolderPathExists\<close> (lines 70-77): \<^verbatim>\<open>QFileInfo(path).filePath()\<close> is the path
  the \<^verbatim>\<open>QFileInfo\<close> was made from.
\<close>

definition ensureFolderPathExists :: "'s Qt \<Rightarrow> QString \<Rightarrow> 's \<Rightarrow> bool \<times> 's" where
  "ensureFolderPathExists qt foldernamepath s = QDir_mkpath qt foldernamepath s"

text \<open>
  \<^verbatim>\<open>FS::copyPath\<close> (lines 79-123). \<open>copyPath_entries\<close> is the \<^verbatim>\<open>foreach\<close> loop over the entry
  list, with the flag \<open>OK\<close> and the state as it goes; \<^verbatim>\<open>OK &= f()\<close> always calls \<open>f\<close>. The
  recursion follows the directory tree, which a link can make cyclic, so that the walk
  need not end: \<open>fuel\<close> bounds the depth of the recursive calls, and the result is \<open>None\<close>
  when a call would go deeper.
\<close>

function copyPath ::
    "platform \<Rightarrow> 's Qt \<Rightarrow> nat \<Rightarrow> QString \<Rightarrow> QString \<Rightarrow> bool \<Rightarrow> 's \<Rightarrow> (bool \<times> 's) option"
  and copyPath_entries ::
    "platform \<Rightarrow> 's Qt \<Rightarrow> nat \<Rightarrow> QString \<Rightarrow> QString \<Rightarrow> bool \<Rightarrow> QString list \<Rightarrow> bool \<Rightarrow> 's
       \<Rightarrow> (bool \<times> 's) option"
  where
  "copyPath os qt fuel src dst follow_symlinks s =
     (let follow_symlinks = (if os = Windows then True else follow_symlinks)
      in if \<not> QDir_exists qt s src then Some (False, s)
         else
           (case ensureFolderPathExists qt dst s of
              (created, s1) \<Rightarrow>
                if \<not> created then Some (False, s1)
                else copyPath_entries os qt fuel src dst follow_symlinks
                       (QDir_entryList qt s1 src) True s1))"
| "copyPath_entries os qt fuel src dst follow_symlinks [] OK s = Some (OK, s)"
| "copyPath_entries os qt fuel src dst follow_symlinks (f # fs) OK s =
     (let inner_src = src @ QDir_separator os # f;
          inner_dst = dst @ QDir_separator os # f
      in if \<not> follow_symlinks \<and> QFileInfo_isSymLink qt s inner_src then
           (case QFile_link qt (QFileInfo_symLinkTarget qt s inner_src) inner_dst s of
              (r, s') \<Rightarrow> copyPath_entries os qt fuel src dst follow_symlinks fs (OK \<and> r) s')
         else if QFileInfo_isDir qt s inner_src then
           (case fuel of
              0 \<Rightarrow> None
            | Suc n \<Rightarrow>
                (case copyPath os qt n inner_src inner_dst follow_symlinks s of
                   None \<Rightarrow> None
                 | Some (r, s') \<Rightarrow>
                     copyPath_entries os qt fuel src dst follow_symlinks fs (OK \<and> r) s'))
         else if QFileInfo_isFile qt s inner_src then
           (case QFile_copy qt inner_src inner_dst s of
              (r, s') \<Rightarrow> copyPath_entries os qt fuel src dst follow_symlinks fs (OK \<and> r) s')
         else copyPath_entries os qt fuel src dst follow_symlinks fs False s)"
  by pat_completeness auto
termination
  by (relation "measures
        [\<lambda>x. case x of Inl (os, qt, fuel, r) \<Rightarrow> fuel | Inr (os, qt, fuel, r) \<Rightarrow> fuel,
         \<lambda>x. case x of Inl _ \<Rightarrow> 1 | Inr _ \<Rightarrow> 0,
         \<lambda>x. case x of Inl _ \<Rightarrow> 0
                      | Inr (os, qt, fuel, src, dst, follow, fs, r) \<Rightarrow> length fs]")
     auto

declare copyPath.simps [simp del]

section \<open>Desktop shortcuts\<close>

text \<open>
  \<^verbatim>\<open>FS::createShortCut\<close> (lines 375-428). On Linux the result of \<^verbatim>\<open>f.open\<close> is dropped; a
  \<^verbatim>\<open>QTextStream\<close> on a file that is not open writes nothing when it is flushed.
  \<^verbatim>\<open>toLocal8Bit\<close> is taken as the identity on the characters. The permission flags are
  \<^verbatim>\<open>ExeOwner = 0x1000\<close>, \<^verbatim>\<open>ExeGroup = 0x0010\<close> and \<^verbatim>\<open>ExeOther = 0x0001\<close>.
\<close>

definition desktop_entry :: "QString \<Rightarrow> QString list \<Rightarrow> QString \<Rightarrow> QString \<Rightarrow> QString" where
  "desktop_entry dest args name icon =
     (let argstring =
            (if args \<noteq> []
             then QS [CHR '' '', CHR 0x27] @ QStringList_join args (QS [CHR 0x27, CHR '' '', CHR 0x27])
                    @ QS [CHR 0x27]
             else [])
      in QS ''[Desktop Entry]'' @ QS [CHR 0x0A]
         @ QS ''Type=Application'' @ QS [CHR 0x0A]
         @ QS ''TryExec='' @ dest @ QS [CHR 0x0A]
         @ QS ''Exec='' @ dest @ argstring @ QS [CHR 0x0A]
         @ QS ''Name='' @ name @ QS [CHR 0x0A]
         @ QS ''Icon='' @ icon @ QS [CHR 0x0A])"

definition createShortCut ::
  "platform \<Rightarrow> 's Qt \<Rightarrow> QString \<Rightarrow> QString \<Rightarrow> QString list \<Rightarrow> QString \<Rightarrow> QString \<Rightarrow> 's
     \<Rightarrow> bool \<times> 's" where
  "createShortCut os qt location dest args name icon s =
     (case os of
        Linux \<Rightarrow>
          (let location = PathCombine os location (name @ QS ''.desktop'')
           in case QFile_open qt location s of
                (opened, s1) \<Rightarrow>
                  let s2 = (if opened
                            then QFile_write qt location (desktop_entry dest args name icon) s1
                            else s1)
                  in case QFile_setPermissions qt location
                            (or (QFile_permissions qt s2 location) 0x1011) s2 of
                       (_, s3) \<Rightarrow> (True, s3))
      | Windows \<Rightarrow> (False, s)
      | OtherUnix \<Rightarrow> (False, s))"

section \<open>A file system in memory\<close>

text \<open>
  Modelled from the spec: the file system and the Qt classes that act on it
  (\<^verbatim>\<open>QDir\<close>, \<^verbatim>\<open>QFileInfo\<close>, \<^verbatim>\<open>QFile\<close>, \<^verbatim>\<open>QSaveFile\<close>) are not code of this repository. The
  model below is a POSIX file system in memory. It gives the theorems that hold for every
  record of primitives a concrete instance, and it is what the claims about the contents
  of files are settled against.

  A state holds the current directory, the nodes by their absolute clean path (the root
  \<^verbatim>\<open>/\<close> is always a directory), the temporary files of the save files that are open (by
  the path of their destination: the spec's temporary file in the same directory), the
  number of bytes the device still takes, whether the device lets a temporary file
  replace its destination, and the number of bytes the device delivers to one read when
  that is limited.
\<close>

datatype node = File QByteArray "32 word" | Dir | SymLink QString | Special

record memfs =
  cwd :: QString
  nodes :: "(QString \<times> node) list"
  pending :: "(QString \<times> QByteArray) list"
  space :: nat
  rename_ok :: bool
  read_limit :: "nat option"

definition key :: "memfs \<Rightarrow> QString \<Rightarrow> QString" where
  "key s path = QDir_absolutePath Linux (cwd s) path"

definition lookup :: "memfs \<Rightarrow> QString \<Rightarrow> node option" where
  "lookup s k = (if k = QS ''/'' then Some Dir else map_of (nodes s) k)"

text \<open>What a path leads to, following links (at most as many as there are nodes).\<close>

fun follow_links :: "nat \<Rightarrow> memfs \<Rightarrow> QString \<Rightarrow> node option" where
  "follow_links 0 s k = (case lookup s k of Some (SymLink t) \<Rightarrow> None | n \<Rightarrow> n)"
| "follow_links (Suc fuel) s k =
     (case lookup s k of Some (SymLink t) \<Rightarrow> follow_links fuel s (key s t) | n \<Rightarrow> n)"

definition stat :: "memfs \<Rightarrow> QString \<Rightarrow> node option" where
  "stat s path = follow_links (length (nodes s)) s (key s path)"

definition mem_isDir :: "memfs \<Rightarrow> QString \<Rightarrow> bool" where
  "mem_isDir s path = (case stat s path of Some Dir \<Rightarrow> True | _ \<Rightarrow> False)"

definition mem_isFile :: "memfs \<Rightarrow> QString \<Rightarrow> bool" where
  "mem_isFile s path = (case stat s path of Some (File b m) \<Rightarrow> True | _ \<Rightarrow> False)"

definition mem_exists :: "memfs \<Rightarrow> QString \<Rightarrow> bool" where
  "mem_exists s path = (case stat s path of None \<Rightarrow> False | _ \<Rightarrow> True)"

definition mem_isSymLink :: "memfs \<Rightarrow> QString \<Rightarrow> bool" where
  "mem_isSymLink s path = (case lookup s (key s path) of Some (SymLink t) \<Rightarrow> True | _ \<Rightarrow> False)"

definition mem_symLinkTarget :: "memfs \<Rightarrow> QString \<Rightarrow> QString" where
  "mem_symLinkTarget s path =
     (case lookup s (key s path) of Some (SymLink t) \<Rightarrow> key s t | _ \<Rightarrow> [])"

text \<open>The bytes of the file at a path, when a file is there.\<close>

definition file_bytes :: "node option \<Rightarrow> QByteArray option" where
  "file_bytes n = (case n of Some (File b m) \<Rightarrow> Some b | _ \<Rightarrow> None)"

definition mem_content :: "memfs \<Rightarrow> QString \<Rightarrow> QByteArray option" where
  "mem_content s path = file_bytes (lookup s (key s path))"

text \<open>
  \<^verbatim>\<open>mkpath\<close> makes every missing directory on the way; it fails, making nothing, when a
  node on the way is not a directory.
\<close>

definition ancestors :: "QString \<Rightarrow> QString list" where
  "ancestors k =
     (let elts = path_elements k
      in map (\<lambda>n. QC CHR ''/'' # QStringList_join (take n elts) (QS ''/''))
           [1 ..< Suc (length elts)])"

definition add_dir :: "QString \<Rightarrow> (QString \<times> node) list \<Rightarrow> (QString \<times> node) list" where
  "add_dir k ns = (if map_of ns k = None then ns @ [(k, Dir)] else ns)"

definition mem_mkpath :: "QString \<Rightarrow> memfs \<Rightarrow> bool \<times> memfs" where
  "mem_mkpath path s =
     (let ks = ancestors (key s path)
      in if list_all (\<lambda>k. case stat s k of None \<Rightarrow> True | Some Dir \<Rightarrow> True | _ \<Rightarrow> False) ks
         then (True, s\<lparr>nodes := fold add_dir ks (nodes s)\<rparr>)
         else (False, s))"

text \<open>The names in a directory, in the order of the nodes.\<close>

definition mem_entryList :: "memfs \<Rightarrow> QString \<Rightarrow> QString list" where
  "mem_entryList s path =
     (let elts = path_elements (key s path)
      in map (\<lambda>(k, n). last (path_elements k))
           (filter (\<lambda>(k, n). path_elements k \<noteq> [] \<and> butlast (path_elements k) = elts)
              (nodes s)))"

text \<open>
  \<^verbatim>\<open>QFile::link\<close> and \<^verbatim>\<open>QFile::copy\<close> fail when the new name is taken or its directory is
  missing; a copy also fails when the source is not a file or the device is full.
\<close>

definition mem_link :: "QString \<Rightarrow> QString \<Rightarrow> memfs \<Rightarrow> bool \<times> memfs" where
  "mem_link target linkName s =
     (let k = key s linkName
      in if lookup s k = None \<and> mem_isDir s (QFileInfo_dir k)
         then (True, s\<lparr>nodes := nodes s @ [(k, SymLink target)]\<rparr>)
         else (False, s))"

definition mem_copy :: "QString \<Rightarrow> QString \<Rightarrow> memfs \<Rightarrow> bool \<times> memfs" where
  "mem_copy fileName newName s =
     (let k = key s newName
      in case stat s fileName of
           Some (File b m) \<Rightarrow>
             if lookup s k = None \<and> mem_isDir s (QFileInfo_dir k) \<and> length b \<le> space s
             then (True, s\<lparr>nodes := nodes s @ [(k, File b m)], space := space s - length b\<rparr>)
             else (False, s)
         | _ \<Rightarrow> (False, s))"

text \<open>
  Opening a \<^verbatim>\<open>QFile\<close> for writing makes an empty file, or empties the file that is there
  when its owner may write it (\<^verbatim>\<open>WriteOwner = 0x2000\<close>); a new file has the permissions
  \<^verbatim>\<open>0x6644\<close>. Only files carry permissions.
\<close>

definition set_node :: "QString \<Rightarrow> node \<Rightarrow> (QString \<times> node) list \<Rightarrow> (QString \<times> node) list" where
  "set_node k n ns =
     (if map_of ns k = None then ns @ [(k, n)]
      else map (\<lambda>(k', n'). if k' = k then (k', n) else (k', n')) ns)"

definition mem_open :: "QString \<Rightarrow> memfs \<Rightarrow> bool \<times> memfs" where
  "mem_open path s =
     (let k = key s path
      in if \<not> mem_isDir s (QFileInfo_dir k) then (False, s)
         else case lookup s k of
                None \<Rightarrow> (True, s\<lparr>nodes := set_node k (File [] 0x6644) (nodes s)\<rparr>)
              | Some (File b m) \<Rightarrow>
                  if and m 0x2000 = 0 then (False, s)
                  else (True, s\<lparr>nodes := set_node k (File [] m) (nodes s)\<rparr>)
              | _ \<Rightarrow> (False, s))"

definition mem_write :: "QString \<Rightarrow> QString \<Rightarrow> memfs \<Rightarrow> memfs" where
  "mem_write path text s =
     (let k = key s path
      in case lookup s k of
           Some (File b m) \<Rightarrow> s\<lparr>nodes := set_node k (File (b @ map ucast text) m) (nodes s)\<rparr>
         | _ \<Rightarrow> s)"

definition mem_permissions :: "memfs \<Rightarrow> QString \<Rightarrow> 32 word" where
  "mem_permissions s path = (case stat s path of Some (File b m) \<Rightarrow> m | _ \<Rightarrow> 0)"

definition mem_setPermissions :: "QString \<Rightarrow> 32 word \<Rightarrow> memfs \<Rightarrow> bool \<times> memfs" where
  "mem_setPermissions path m s =
     (let k = key s path
      in case lookup s k of
           Some (File b m') \<Rightarrow> (True, s\<lparr>nodes := set_node k (File b m) (nodes s)\<rparr>)
         | _ \<Rightarrow> (False, s))"

text \<open>
  A \<^verbatim>\<open>QSaveFile\<close>, as the spec has it: it writes the buffer to a temporary file in the same
  directory and replaces the destination on success. Opening fails when the destination
  is not a file that may be written or a free name in a directory; writing appends to the
  temporary file as many bytes as the device takes; committing replaces the destination by
  the temporary file in one step when the device allows it, and drops the temporary file
  otherwise; the destructor drops a temporary file that is left.
\<close>

definition mem_save_open :: "QString \<Rightarrow> memfs \<Rightarrow> bool \<times> memfs" where
  "mem_save_open path s =
     (let k = key s path;
          writable = (case lookup s k of
                        None \<Rightarrow> True
                      | Some (File b m) \<Rightarrow> and m 0x2000 \<noteq> 0
                      | _ \<Rightarrow> False)
      in if writable \<and> mem_isDir s (QFileInfo_dir k)
         then (True, s\<lparr>pending := (k, []) # filter (\<lambda>(k', b). k' \<noteq> k) (pending s)\<rparr>)
         else (False, s))"

definition mem_save_write :: "QString \<Rightarrow> QByteArray \<Rightarrow> memfs \<Rightarrow> int \<times> memfs" where
  "mem_save_write path data s =
     (let k = key s path
      in case map_of (pending s) k of
           None \<Rightarrow> (- 1, s)
         | Some b \<Rightarrow>
             let n = min (length data) (space s)
             in (int n,
                 s\<lparr>pending := (k, b @ take n data) # filter (\<lambda>(k', b). k' \<noteq> k) (pending s),
                   space := space s - n\<rparr>))"

definition mem_save_commit :: "QString \<Rightarrow> memfs \<Rightarrow> bool \<times> memfs" where
  "mem_save_commit path s =
     (let k = key s path
      in case map_of (pending s) k of
           None \<Rightarrow> (False, s)
         | Some b \<Rightarrow>
             if rename_ok s
             then (True,
                   s\<lparr>nodes := set_node k
                                (File b (case lookup s k of Some (File b' m) \<Rightarrow> m | _ \<Rightarrow> 0x6644))
                                (nodes s),
                     pending := filter (\<lambda>(k', b). k' \<noteq> k) (pending s)\<rparr>)
             else (False, s\<lparr>pending := filter (\<lambda>(k', b). k' \<noteq> k) (pending s)\<rparr>))"

definition mem_save_destroy :: "QString \<Rightarrow> memfs \<Rightarrow> memfs" where
  "mem_save_destroy path s = s\<lparr>pending := filter (\<lambda>(k', b). k' \<noteq> key s path) (pending s)\<rparr>"

text \<open>
  Reading, as the spec has it: opening for reading fails if the file is missing or
  unreadable, that is when no file is at the path or its owner may not read it
  (\<^verbatim>\<open>ReadOwner = 0x4000\<close>); the size is the number of bytes the file holds; a read gives
  back the bytes of the file, as many as were asked for and as the device delivers.
\<close>

definition mem_openRead :: "memfs \<Rightarrow> QString \<Rightarrow> bool" where
  "mem_openRead s path =
     (case stat s path of Some (File b m) \<Rightarrow> and m 0x4000 \<noteq> 0 | _ \<Rightarrow> False)"

definition mem_size :: "memfs \<Rightarrow> QString \<Rightarrow> int" where
  "mem_size s path = (case stat s path of Some (File b m) \<Rightarrow> int (length b) | _ \<Rightarrow> 0)"

definition mem_read :: "memfs \<Rightarrow> QString \<Rightarrow> int \<Rightarrow> int \<times> QByteArray" where
  "mem_read s path maxSize =
     (case stat s path of
        Some (File b m) \<Rightarrow>
          (let n = (case read_limit s of
                      None \<Rightarrow> min (nat maxSize) (length b)
                    | Some l \<Rightarrow> min l (min (nat maxSize) (length b)))
           in (int n, take n b))
      | _ \<Rightarrow> (- 1, []))"

definition memqt :: "memfs Qt" where
  "memqt =
     \<lparr> QDir_currentPath = cwd,
       QDir_exists = mem_isDir,
       QDir_mkpath = mem_mkpath,
       QDir_entryList = mem_entryList,
       QFileInfo_exists = mem_exists,
       QFileInfo_isSymLink = mem_isSymLink,
       QFileInfo_isDir = mem_isDir,
       QFileInfo_isFile = mem_isFile,
       QFileInfo_symLinkTarget = mem_symLinkTarget,
       QFile_link = mem_link,
       QFile_copy = mem_copy,
       QFile_open = mem_open,
       QFile_write = mem_write,
       QFile_permissions = mem_permissions,
       QFile_setPermissions = mem_setPermissions,
       QSaveFile_open = mem_save_open,
       QSaveFile_write = mem_save_write,
       QSaveFile_commit = mem_save_commit,
       QSaveFile_destroy = mem_save_destroy,
       QFile_openRead = mem_openRead,
       QFile_size = mem_size,
       QFile_read = mem_read \<rparr>"

section \<open>Notions of the specification and example states\<close>

text \<open>
  Follows the spec's words, for the recursive copy: for each entry, if it is a symlink
  and the flag says not to follow, recreate it as a symlink pointing at the same target in
  the destination; if it is a directory, recurse; if it is a file, copy it; any other
  entry kind is an unconditional failure. \<open>entry_operation\<close> is that one operation on the
  entry \<open>f\<close> of \<open>src\<close>, with its success and the state it leaves (the recursion is
  \<^verbatim>\<open>copyPath\<close> itself, one level deeper).
\<close>

definition entry_operation ::
  "platform \<Rightarrow> 's Qt \<Rightarrow> nat \<Rightarrow> QString \<Rightarrow> QString \<Rightarrow> bool \<Rightarrow> QString \<Rightarrow> 's \<Rightarrow> (bool \<times> 's) option"
  where
  "entry_operation os qt fuel src dst follow_symlinks f s =
     (let inner_src = src @ QDir_separator os # f;
          inner_dst = dst @ QDir_separator os # f
      in if \<not> follow_symlinks \<and> QFileInfo_isSymLink qt s inner_src
         then Some (QFile_link qt (QFileInfo_symLinkTarget qt s inner_src) inner_dst s)
         else if QFileInfo_isDir qt s inner_src
         then (case fuel of
                 0 \<Rightarrow> None
               | Suc n \<Rightarrow> copyPath os qt n inner_src inner_dst follow_symlinks s)
         else if QFileInfo_isFile qt s inner_src
         then Some (QFile_copy qt inner_src inner_dst s)
         else Some (False, s))"

text \<open>
  Follows the spec's words: a single failure anywhere does not abort the traversal.
  \<open>entry_results\<close> performs the operation of every entry of the list, in order, each in the
  state the one before it left and whatever the results so far, and collects the
  successes.
\<close>

fun entry_results ::
  "platform \<Rightarrow> 's Qt \<Rightarrow> nat \<Rightarrow> QString \<Rightarrow> QString \<Rightarrow> bool \<Rightarrow> QString list \<Rightarrow> 's
     \<Rightarrow> (bool list \<times> 's) option" where
  "entry_results os qt fuel src dst follow_symlinks [] s = Some ([], s)"
| "entry_results os qt fuel src dst follow_symlinks (f # fs) s =
     (case entry_operation os qt fuel src dst follow_symlinks f s of
        None \<Rightarrow> None
      | Some (r, s') \<Rightarrow>
          (case entry_results os qt fuel src dst follow_symlinks fs s' of
             None \<Rightarrow> None
           | Some (rs, s'') \<Rightarrow> Some (r # rs, s'')))"

text \<open>
  Follows the spec's words: the names \<^verbatim>\<open>base\<close>, \<^verbatim>\<open>base1\<close>, \<^verbatim>\<open>base2\<close>, ... that the search
  for an unused directory name probes, and the statement that the first \<open>n\<close> of them (from
  \<^verbatim>\<open>base\<close> on) are all taken in the directory.
\<close>

definition candidate :: "QString \<Rightarrow> int \<Rightarrow> QString" where
  "candidate base k = (if k = 0 then base else base @ QString_number k)"

definition probes_taken ::
  "platform \<Rightarrow> 's Qt \<Rightarrow> 's \<Rightarrow> QString \<Rightarrow> QString \<Rightarrow> int \<Rightarrow> bool" where
  "probes_taken os qt s inDir base n =
     list_all (\<lambda>k. QFileInfo_exists qt s (PathCombine os inDir (candidate base k))) [0 .. n - 1]"

text \<open>
  The tree below \<open>src\<close> is at most \<open>n\<close> directories deep, whatever state the file system is
  in: a bound under which the walk of \<^verbatim>\<open>copyPath\<close> ends.
\<close>

primrec depth_within :: "platform \<Rightarrow> 's Qt \<Rightarrow> nat \<Rightarrow> QString \<Rightarrow> bool" where
  "depth_within os qt 0 src =
     (\<forall>t f. \<not> QFileInfo_isDir qt t (src @ QDir_separator os # f))"
| "depth_within os qt (Suc n) src =
     (\<forall>t f. QFileInfo_isDir qt t (src @ QDir_separator os # f)
        \<longrightarrow> depth_within os qt n (src @ QDir_separator os # f))"

text \<open>
  Follows the spec's words: a path is canonical when it has no redundant separator and no
  \<^verbatim>\<open>.\<close> or \<^verbatim>\<open>..\<close> segment left to collapse. \<open>good\<close> says so of a list of segments: none is
  empty, none is \<^verbatim>\<open>.\<close>, and \<^verbatim>\<open>..\<close> stands only at the front, where nothing precedes it that
  it could remove. A canonical path is \<^verbatim>\<open>.\<close>, or \<^verbatim>\<open>/\<close>, or a path whose segments, after
  the leading separator of a rooted path, are good.
\<close>

definition good :: "QString list \<Rightarrow> bool" where
  "good xs =
     ([] \<notin> set xs \<and> QS ''.'' \<notin> set xs \<and> QS ''..'' \<notin> set (dropWhile (\<lambda>s. s = QS ''..'') xs))"

definition canonical :: "QString \<Rightarrow> bool" where
  "canonical path =
     (path = QS ''.'' \<or> path = QS ''/'' \<or>
      (path \<noteq> [] \<and>
       good (QString_split (QC CHR ''/'') (if hd path = QC CHR ''/'' then tl path else path))))"

text \<open>
  Follows the spec's words: a path lies under a directory when the elements of the
  directory's path are the leading elements of the path.
\<close>

definition lies_under :: "QString \<Rightarrow> QString \<Rightarrow> bool" where
  "lies_under dir path = prefix (path_elements dir) (path_elements path)"

text \<open>
  A small state: the current directory \<^verbatim>\<open>/home/user\<close> holds a directory \<^verbatim>\<open>src\<close> with a
  file, a node that is neither file, directory nor link, and another file, and an empty
  directory \<^verbatim>\<open>empty\<close>.
\<close>

definition example_fs :: memfs where
  "example_fs =
     \<lparr> cwd = QS ''/home/user'',
       nodes = [(QS ''/home'', Dir),
                (QS ''/home/user'', Dir),
                (QS ''/home/user/src'', Dir),
                (QS ''/home/user/src/a.txt'', File [0x68, 0x69] 0x6644),
                (QS ''/home/user/src/pipe'', Special),
                (QS ''/home/user/src/z.txt'', File [0x7A] 0x6644),
                (QS ''/home/user/empty'', Dir)],
       pending = [],
       space = 1000,
       rename_ok = True,
       read_limit = None \<rparr>"

text \<open>
  A crowded state: the directory \<^verbatim>\<open>/d\<close> holds the 9000 directories \<^verbatim>\<open>x\<close>, \<^verbatim>\<open>x1\<close>, ...,
  \<^verbatim>\<open>x8999\<close> and nothing else.
\<close>

definition crowded_fs :: memfs where
  "crowded_fs =
     \<lparr> cwd = QS ''/d'',
       nodes = (QS ''/d'', Dir) # map (\<lambda>k. (QS ''/d/'' @ candidate (QS ''x'') k, Dir)) [0 .. 8999],
       pending = [],
       space = 1000,
       rename_ok = True,
       read_limit = None \<rparr>"

text \<open>
  A state with a file that its owner may write but not read: \<^verbatim>\<open>/home/user/w.bin\<close> has the
  permissions \<^verbatim>\<open>WriteOwner\<close> alone.
\<close>

definition writeonly_fs :: memfs where
  "writeonly_fs =
     \<lparr> cwd = QS ''/home/user'',
       nodes = [(QS ''/home'', Dir),
                (QS ''/home/user'', Dir),
                (QS ''/home/user/w.bin'', File [0x41] 0x2000)],
       pending = [],
       space = 1000,
       rename_ok = True,
       read_limit = None \<rparr>"

text \<open>
  The directories that \<^verbatim>\<open>FS::write(p, d)\<close> asks for before it opens the file: the directory
  of \<open>p\<close> and every directory on the way to it.
\<close>

definition made_directories :: "platform \<Rightarrow> memfs \<Rightarrow> QString \<Rightarrow> QString list" where
  "made_directories os s p =
     ancestors (key s (QDir_absolutePath os (cwd s) (QFileInfo_dir p)))"

text \<open>
  The file that a write leaves at \<open>p\<close> can be opened for reading: a file that is at \<open>p\<close>
  keeps its permissions when it is replaced, so its owner must be allowed to read it; a
  new file has the default permissions, which allow it.
\<close>

definition readable_after_write :: "memfs \<Rightarrow> QString \<Rightarrow> bool" where
  "readable_after_write s p =
     (case lookup s (key s p) of Some (File b m) \<Rightarrow> and m 0x4000 \<noteq> 0 | _ \<Rightarrow> True)"

text \<open>The device delivers \<open>n\<close> bytes to one read.\<close>

definition delivers :: "memfs \<Rightarrow> nat \<Rightarrow> bool" where
  "delivers s n = (case read_limit s of None \<Rightarrow> True | Some l \<Rightarrow> n \<le> l)"

section \<open>Properties of filename sanitisation\<close>

lemma RemoveInvalidFilenameChars_loop_eq:
  "RemoveInvalidFilenameChars_loop i s c =
     take i s @ map (\<lambda>x. if x \<in> set badFilenameChars then c else x) (drop i s)"
proof (induction i s c rule: RemoveInvalidFilenameChars_loop.induct)
  case (1 i string replaceWith)
  let ?f = "\<lambda>x. if x \<in> set badFilenameChars then replaceWith else x"
  show ?case
  proof (cases "i < length string")
    case False
    then show ?thesis by (subst RemoveInvalidFilenameChars_loop.simps) simp
  next
    case True
    let ?s' = "if string ! i \<in> set badFilenameChars then string[i := replaceWith] else string"
    have step: "RemoveInvalidFilenameChars_loop i string replaceWith =
                  take (i + 1) ?s' @ map ?f (drop (i + 1) ?s')"
      using True "1.IH" by (subst RemoveInvalidFilenameChars_loop.simps) simp
    have d: "drop (i + 1) ?s' = drop (i + 1) string"
      by simp
    have t: "take (i + 1) ?s' = take i string @ [?f (string ! i)]"
      using True by (simp add: take_Suc_conv_app_nth)
    have "drop i string = string ! i # drop (i + 1) string"
      using True by (simp add: Cons_nth_drop_Suc)
    then show ?thesis
      unfolding step d t by simp
  qed
qed

lemma RemoveInvalidFilenameChars_map:
  "RemoveInvalidFilenameChars s c = map (\<lambda>x. if x \<in> set badFilenameChars then c else x) s"
  by (simp add: RemoveInvalidFilenameChars_def RemoveInvalidFilenameChars_loop_eq)

text \<open>
  Claim C6. For every string \<open>s\<close> and replacement character \<open>c\<close>, the result of
  \<^verbatim>\<open>RemoveInvalidFilenameChars(s, c)\<close> has the length of \<open>s\<close>, and at every position it holds
  \<open>c\<close> if the character of \<open>s\<close> there belongs to the forbidden set, and the character of \<open>s\<close>
  itself otherwise.
\<close>

theorem RemoveInvalidFilenameChars_replaces:
  "length (RemoveInvalidFilenameChars s c) = length s \<and>
   (\<forall>i < length s.
      RemoveInvalidFilenameChars s c ! i = (if s ! i \<in> set badFilenameChars then c else s ! i))"
  by (simp add: RemoveInvalidFilenameChars_map)

theorem RemoveInvalidFilenameChars_replaces_witness:
  "length (RemoveInvalidFilenameChars (QS ''a/b:c'') (QC CHR ''-'')) = 5 \<and>
   RemoveInvalidFilenameChars (QS ''a/b:c'') (QC CHR ''-'') ! 0 = QC CHR ''a'' \<and>
   RemoveInvalidFilenameChars (QS ''a/b:c'') (QC CHR ''-'') ! 1 = QC CHR ''-'' \<and>
   RemoveInvalidFilenameChars (QS ''a/b:c'') (QC CHR ''-'') ! 3 = QC CHR ''-''"
proof -
  note th = RemoveInvalidFilenameChars_replaces [of "QS ''a/b:c''" "QC CHR ''-''"]
  note at = th [THEN conjunct2, rule_format]
  have len: "length (RemoveInvalidFilenameChars (QS ''a/b:c'') (QC CHR ''-'')) = 5"
    using th [THEN conjunct1] by (simp add: QS_def)
  have c0: "RemoveInvalidFilenameChars (QS ''a/b:c'') (QC CHR ''-'') ! 0 = QC CHR ''a''"
    using at [of 0] by (simp add: QS_def QC_def badFilenameChars_def)
  have c1: "RemoveInvalidFilenameChars (QS ''a/b:c'') (QC CHR ''-'') ! 1 = QC CHR ''-''"
    using at [of 1] by (simp add: QS_def QC_def badFilenameChars_def)
  have c3: "RemoveInvalidFilenameChars (QS ''a/b:c'') (QC CHR ''-'') ! 3 = QC CHR ''-''"
    using at [of 3] by (simp add: QS_def QC_def badFilenameChars_def)
  from len c0 c1 c3 show ?thesis by (intro conjI)
qed

text \<open>
  Claim C10. For every string \<open>s\<close> and every replacement character \<open>c\<close> outside the
  forbidden set, sanitising twice gives what sanitising once gives.
\<close>

theorem RemoveInvalidFilenameChars_idempotent:
  "c \<notin> set badFilenameChars \<Longrightarrow>
   RemoveInvalidFilenameChars (RemoveInvalidFilenameChars s c) c = RemoveInvalidFilenameChars s c"
  by (simp add: RemoveInvalidFilenameChars_map)

theorem RemoveInvalidFilenameChars_idempotent_witness:
  "QC CHR ''-'' \<notin> set badFilenameChars \<and>
   RemoveInvalidFilenameChars (RemoveInvalidFilenameChars (QS ''a/b:c'') (QC CHR ''-'')) (QC CHR ''-'')
     = RemoveInvalidFilenameChars (QS ''a/b:c'') (QC CHR ''-'')"
proof -
  have h: "QC CHR ''-'' \<notin> set badFilenameChars"
    by (simp add: QS_def QC_def badFilenameChars_def)
  from RemoveInvalidFilenameChars_idempotent [OF h, of "QS ''a/b:c''"] h
  show ?thesis by (intro conjI)
qed

section \<open>Properties of splitting, joining and cleaning\<close>

lemma QString_split_no_sep: "sep \<notin> set w \<Longrightarrow> QString_split sep w = [w]"
  by (induction w) auto

lemma QString_split_not_Nil: "QString_split sep x \<noteq> []"
  by (induction x) (auto split: list.splits)

lemma QString_split_sep_free: "s \<in> set (QString_split sep x) \<Longrightarrow> sep \<notin> set s"
proof (induction x arbitrary: s)
  case Nil
  then show ?case by simp
next
  case (Cons c x)
  then show ?case
    by (cases "QString_split sep x") (auto split: if_splits)
qed

lemma QString_split_join:
  "segs \<noteq> [] \<Longrightarrow> \<forall>s \<in> set segs. sep \<notin> set s \<Longrightarrow>
   QString_split sep (QStringList_join segs [sep]) = segs"
proof (induction segs "[sep]" rule: QStringList_join.induct)
  case 1
  then show ?case by simp
next
  case (2 s)
  then show ?case by (simp add: QString_split_no_sep)
next
  case (3 s t ss)
  then have ih: "QString_split sep (QStringList_join (t # ss) [sep]) = t # ss"
    by simp
  have "sep \<notin> set s" using 3 by simp
  then have "QString_split sep (s @ sep # r) = s # QString_split sep r" for r
    by (induction s) (auto simp add: QString_split_not_Nil split: list.splits)
  with ih show ?case by simp
qed

lemma dropWhile_all: "\<forall>x \<in> set xs. P x \<Longrightarrow> dropWhile P xs = []"
  by (induction xs) auto

lemma last_dropWhile_eq: "dropWhile P xs \<noteq> [] \<Longrightarrow> last (dropWhile P xs) = last xs"
  by (induction xs) (auto split: if_splits)

lemma good_butlast: "good (xs @ [t]) \<Longrightarrow> good xs"
  by (auto simp add: good_def dropWhile_append dropWhile_all split: if_splits)

lemma good_snoc:
  "good xs \<Longrightarrow> s \<noteq> [] \<Longrightarrow> s \<noteq> QS ''.'' \<Longrightarrow> s \<noteq> QS ''..'' \<Longrightarrow> good (xs @ [s])"
  by (auto simp add: good_def dropWhile_append)

lemma good_snoc_dotdot:
  assumes "good (xs @ [QS ''..''])"
  shows "good ((xs @ [QS ''..'']) @ [QS ''..''])"
proof -
  let ?ys = "xs @ [QS ''..'']"
  have "dropWhile (\<lambda>s. s = QS ''..'') ?ys = []"
  proof (rule ccontr)
    assume ne: "dropWhile (\<lambda>s. s = QS ''..'') ?ys \<noteq> []"
    then have "last (dropWhile (\<lambda>s. s = QS ''..'') ?ys) = QS ''..''"
      using last_dropWhile_eq [of "\<lambda>s. s = QS ''..''" ?ys] by simp
    with ne have "QS ''..'' \<in> set (dropWhile (\<lambda>s. s = QS ''..'') ?ys)"
      using last_in_set by metis
    with assms show False by (simp add: good_def)
  qed
  then have all: "\<forall>x \<in> set ?ys. x = QS ''..''"
    by (simp only: dropWhile_eq_Nil_conv)
  then have "dropWhile (\<lambda>s. s = QS ''..'') (?ys @ [QS ''..'']) = []"
    by (intro dropWhile_all) simp
  with assms show ?thesis
    by (simp add: good_def QS_def)
qed

lemma normalize_segments_good:
  "good (rev kept) \<Longrightarrow> good (normalize_segments ss kept)"
proof (induction ss arbitrary: kept)
  case Nil
  then show ?case by simp
next
  case (Cons s ss)
  show ?case
  proof (cases "s = [] \<or> s = QS ''.''")
    case True
    with Cons show ?thesis by simp
  next
    case plain: False
    show ?thesis
    proof (cases "s = QS ''..''")
      case False
      with plain Cons.prems have "good (rev (s # kept))"
        by (simp add: good_snoc)
      then have "good (normalize_segments ss (s # kept))"
        by (rule Cons.IH)
      with plain False show ?thesis by simp
    next
      case dd: True
      show ?thesis
      proof (cases kept)
        case Nil
        have "good (rev [s])"
          using dd by (simp add: good_def QS_def)
        then have "good (normalize_segments ss [s])"
          by (rule Cons.IH)
        with plain dd Nil show ?thesis by simp
      next
        case k: (Cons t ts)
        show ?thesis
        proof (cases "t = QS ''..''")
          case True
          with Cons.prems k dd have "good (rev (s # kept))"
            using good_snoc_dotdot [of "rev ts"] by simp
          then have "good (normalize_segments ss (s # kept))"
            by (rule Cons.IH)
          with plain dd k True show ?thesis by simp
        next
          case False
          from Cons.prems k have "good (rev ts)"
            using good_butlast [of "rev ts" t] by simp
          then have "good (normalize_segments ss ts)"
            by (rule Cons.IH)
          with plain dd k False show ?thesis by simp
        qed
      qed
    qed
  qed
qed

lemma normalize_segments_subset:
  "set (normalize_segments ss kept) \<subseteq> set ss \<union> set kept"
  by (induction ss kept rule: normalize_segments.induct) (auto split: list.splits if_splits)

lemma QDir_cleanPath_canonical:
  assumes "x \<noteq> []"
  shows "canonical (QDir_cleanPath os x)"
proof -
  define name where "name = QDir_fromNativeSeparators os x"
  define segs where "segs = normalize_segments (QString_split (QC CHR ''/'') name) []"
  define body where "body = QStringList_join segs (QS ''/'')"
  have g: "good segs"
    unfolding segs_def by (rule normalize_segments_good) (simp add: good_def)
  have free: "\<forall>s \<in> set segs. QC CHR ''/'' \<notin> set s"
    using normalize_segments_subset [of "QString_split (QC CHR ''/'') name" "[]"]
      QString_split_sep_free [of _ "QC CHR ''/''" name]
    unfolding segs_def by auto
  have sp: "segs \<noteq> [] \<Longrightarrow> QString_split (QC CHR ''/'') body = segs"
    unfolding body_def using QString_split_join [of segs "QC CHR ''/''"] free
    by (simp add: QS_def)
  have e: "segs = [] \<Longrightarrow> body = []"
    by (simp add: body_def)
  have hd: "segs \<noteq> [] \<Longrightarrow> body \<noteq> [] \<and> hd body \<noteq> QC CHR ''/''"
  proof -
    assume "segs \<noteq> []"
    then obtain s ss where s: "segs = s # ss" by (cases segs) auto
    with g free have "s \<noteq> []" "QC CHR ''/'' \<notin> set s"
      by (auto simp add: good_def)
    then obtain c cs where "s = c # cs" "c \<noteq> QC CHR ''/''"
      by (cases s) auto
    with s show ?thesis
      by (cases ss) (simp_all add: body_def)
  qed
  have r: "QDir_cleanPath os x =
             (if hd name = QC CHR ''/'' then QC CHR ''/'' # body
              else if body = [] then QS ''.'' else body)"
    using assms by (simp add: QDir_cleanPath_def Let_def name_def segs_def body_def)
  show ?thesis
  proof (cases "segs = []")
    case True
    with e r show ?thesis
      by (auto simp add: canonical_def QS_def)
  next
    case False
    with sp hd g have c: "canonical body" "canonical (QC CHR ''/'' # body)"
      by (simp_all add: canonical_def)
    with r hd False show ?thesis
      by auto
  qed
qed

section \<open>Properties of path combination\<close>

lemmas path_defs = PathCombine_def QDir_cleanPath_def QDir_separator_def
  QDir_fromNativeSeparators_def QDir_absolutePath_def QDir_isRelativePath_def
  QDir_relativeFilePath_def path_elements_def QS_def QC_def

lemma PathCombine_example: "PathCombine os (QS ''a/b/'') (QS ''../c'') = QS ''a/c''"
  by (cases os) (simp_all add: path_defs)

text \<open>
  Claim C7. For every path \<open>a\<close>, combining \<open>a\<close> with the empty path on either side gives \<open>a\<close>
  unchanged; for two paths that are not empty the result is the cleaned form of the two
  joined by the separator, and it is canonical: no redundant separator and no \<^verbatim>\<open>.\<close> or \<^verbatim>\<open>..\<close>
  segment is left to collapse; and combining \<^verbatim>\<open>a/b/\<close> with \<^verbatim>\<open>../c\<close> gives \<^verbatim>\<open>a/c\<close>, whatever
  the platform.
\<close>

theorem PathCombine_identity_and_clean:
  "PathCombine os a [] = a \<and> PathCombine os [] a = a \<and>
   (a \<noteq> [] \<and> b \<noteq> [] \<longrightarrow>
      PathCombine os a b = QDir_cleanPath os (a @ QDir_separator os # b) \<and>
      canonical (PathCombine os a b)) \<and>
   PathCombine os (QS ''a/b/'') (QS ''../c'') = QS ''a/c''"
  using PathCombine_example [of os] QDir_cleanPath_canonical [of "a @ QDir_separator os # b" os]
  by (simp add: PathCombine_def)

theorem PathCombine_identity_and_clean_witness:
  "PathCombine Linux (QS ''a/b/'') [] = QS ''a/b/'' \<and>
   PathCombine Linux [] (QS ''../c'') = QS ''../c'' \<and>
   PathCombine Linux (QS ''a//b/.'') (QS ''c'') = QS ''a/b/c'' \<and>
   canonical (PathCombine Linux (QS ''a//b/.'') (QS ''c''))"
proof -
  have 1: "PathCombine Linux (QS ''a/b/'') [] = QS ''a/b/''"
    using PathCombine_identity_and_clean [of Linux "QS ''a/b/''"] by simp
  have 2: "PathCombine Linux [] (QS ''../c'') = QS ''../c''"
    using PathCombine_identity_and_clean [of Linux "QS ''../c''"] by simp
  have ne: "QS ''a//b/.'' \<noteq> [] \<and> QS ''c'' \<noteq> []"
    by (simp add: QS_def)
  have "PathCombine Linux (QS ''a//b/.'') (QS ''c'')
          = QDir_cleanPath Linux (QS ''a//b/.'' @ QDir_separator Linux # QS ''c'')"
    using PathCombine_identity_and_clean [of Linux "QS ''a//b/.''" "QS ''c''"] ne by blast
  also have "\<dots> = QS ''a/b/c''"
    by (simp add: path_defs)
  finally have 3: "PathCombine Linux (QS ''a//b/.'') (QS ''c'') = QS ''a/b/c''" .
  have 4: "canonical (PathCombine Linux (QS ''a//b/.'') (QS ''c''))"
    using PathCombine_identity_and_clean [of Linux "QS ''a//b/.''" "QS ''c''"] ne by blast
  from 1 2 3 4 show ?thesis by (intro conjI)
qed

section \<open>Properties of path normalisation\<close>

lemma NormalizePath_not_prefix:
  "\<not> prefix (QDir_absolutePath os (QDir_currentPath qt s) (QDir_currentPath qt s))
            (QDir_absolutePath os (QDir_currentPath qt s) path) \<Longrightarrow>
   NormalizePath os qt s path = QDir_absolutePath os (QDir_currentPath qt s) path"
  by (simp add: NormalizePath_def Let_def)

text \<open>
  Claim C8, at the input where the code departs from it. The current directory is
  \<^verbatim>\<open>/home/user\<close> and the path is \<^verbatim>\<open>/home/username/x\<close>. The path is absolute already and does
  not lie under the current directory, so the claim has \<^verbatim>\<open>NormalizePath\<close> return it as it
  is. The code tests \<^verbatim>\<open>newAbsolute.startsWith(currentAbsolute)\<close> on the strings, which holds
  here, and returns the relative path \<^verbatim>\<open>../username/x\<close>.
\<close>

theorem NormalizePath_sibling_of_current:
  "QDir_currentPath memqt example_fs = QS ''/home/user'' \<and>
   QDir_absolutePath Linux (QS ''/home/user'') (QS ''/home/username/x'') = QS ''/home/username/x'' \<and>
   \<not> lies_under (QS ''/home/user'') (QS ''/home/username/x'') \<and>
   NormalizePath Linux memqt example_fs (QS ''/home/username/x'') = QS ''../username/x''"
  by (simp add: NormalizePath_def memqt_def example_fs_def lies_under_def path_defs)

section \<open>Properties of the search for an unused directory name\<close>

lemma DirNameFromString_loop_find:
  "DirNameFromString_loop os qt s b d num =
     (if num > 9000 then []
      else case find (\<lambda>k. \<not> QFileInfo_exists qt s (PathCombine os d (candidate b k))) [num .. 9000] of
             None \<Rightarrow> []
           | Some k \<Rightarrow> candidate b k)"
proof (induction os qt s b d num rule: DirNameFromString_loop.induct)
  case (1 os qt s baseName inDir num)
  let ?P = "\<lambda>k. \<not> QFileInfo_exists qt s (PathCombine os inDir (candidate baseName k))"
  show ?case
  proof (cases "num > 9000")
    case True
    then show ?thesis
      by (subst DirNameFromString_loop.simps) simp
  next
    case small: False
    then have up: "[num .. 9000] = num # [num + 1 .. 9000]"
      by (simp add: upto_rec1)
    show ?thesis
    proof (cases "?P num")
      case True
      then show ?thesis
        using small
        by (subst DirNameFromString_loop.simps) (simp add: up candidate_def)
    next
      case False
      then have ex: "QFileInfo_exists qt s
          (PathCombine os inDir (if num = 0 then baseName else baseName @ QString_number num))"
        by (simp add: candidate_def)
      have ih: "DirNameFromString_loop os qt s baseName inDir (num + 1) =
          (if num + 1 > 9000 then []
           else case find ?P [num + 1 .. 9000] of None \<Rightarrow> [] | Some k \<Rightarrow> candidate baseName k)"
        using "1.IH" [OF refl _ ex] small by simp
      show ?thesis
        using small False ex
        by (subst DirNameFromString_loop.simps) (auto simp add: up ih Let_def)
    qed
  qed
qed

lemma find_upto_first:
  "i \<le> j \<Longrightarrow> j \<le> k \<Longrightarrow> (\<forall>x. i \<le> x \<and> x < j \<longrightarrow> \<not> P x) \<Longrightarrow> P j \<Longrightarrow> find P [i .. k] = Some j"
proof (induction i k rule: upto.induct)
  case (1 i k)
  show ?case
  proof (cases "i = j")
    case True
    with 1 show ?thesis by (simp add: upto_rec1)
  next
    case False
    with 1 have "i < j" "\<not> P i" by auto
    moreover have "find P [i + 1 .. k] = Some j"
      using 1 False by (intro "1.IH") auto
    ultimately show ?thesis
      using 1 by (simp add: upto_rec1)
  qed
qed

lemma DirNameFromString_find:
  "DirNameFromString os qt s string inDir =
     (case find (\<lambda>k. \<not> QFileInfo_exists qt s
                       (PathCombine os inDir
                          (candidate (RemoveInvalidFilenameChars string (QC CHR ''-'')) k)))
             [0 .. 9000] of
        None \<Rightarrow> []
      | Some k \<Rightarrow> candidate (RemoveInvalidFilenameChars string (QC CHR ''-'')) k)"
  by (simp add: DirNameFromString_def DirNameFromString_loop_find)

lemma digit_chars: "n < 10 \<Longrightarrow> QS ''0123456789'' ! n \<in> set (QS ''0123456789'')"
  by (rule nth_mem) (simp add: QS_def)

lemma decimal_chars: "set (decimal n) \<subseteq> set (QS ''0123456789'')"
proof (induction n rule: decimal.induct)
  case (1 n)
  show ?case
  proof (cases "n < 10")
    case True
    then show ?thesis
      using digit_chars [of n] by (subst decimal.simps) simp
  next
    case False
    then show ?thesis
      using "1.IH" digit_chars [of "n mod 10"] by (subst decimal.simps) simp
  qed
qed

lemma decimal_not_empty: "decimal n \<noteq> []"
  by (subst decimal.simps) simp

lemma digits_distinct: "distinct (QS ''0123456789'')"
  by (simp add: QS_def QC_def)

lemma digit_inj: "a < 10 \<Longrightarrow> b < 10 \<Longrightarrow> QS ''0123456789'' ! a = QS ''0123456789'' ! b \<Longrightarrow> a = b"
  using digits_distinct by (simp add: nth_eq_iff_index_eq QS_def)

lemma decimal_inj: "decimal n = decimal m \<Longrightarrow> n = m"
proof (induction n arbitrary: m rule: decimal.induct)
  case (1 n)
  show ?case
  proof (cases "n < 10")
    case n: True
    show ?thesis
    proof (cases "m < 10")
      case True
      with n "1.prems" show ?thesis
        by (subst (asm) decimal.simps, subst (asm) (2) decimal.simps) (simp add: digit_inj)
    next
      case False
      have "decimal m = decimal (m div 10) @ [QS ''0123456789'' ! (m mod 10)]"
        using False by (subst decimal.simps) simp
      moreover have "decimal n = [QS ''0123456789'' ! n]"
        using n by (subst decimal.simps) simp
      ultimately show ?thesis
        using "1.prems" decimal_not_empty [of "m div 10"] by simp
    qed
  next
    case n: False
    have dn: "decimal n = decimal (n div 10) @ [QS ''0123456789'' ! (n mod 10)]"
      using n by (subst decimal.simps) simp
    show ?thesis
    proof (cases "m < 10")
      case True
      then have "decimal m = [QS ''0123456789'' ! m]"
        by (subst decimal.simps) simp
      with dn "1.prems" decimal_not_empty [of "n div 10"] show ?thesis by simp
    next
      case False
      have dm: "decimal m = decimal (m div 10) @ [QS ''0123456789'' ! (m mod 10)]"
        using False by (subst decimal.simps) simp
      from dn dm "1.prems" have a: "decimal (n div 10) = decimal (m div 10)"
        and b: "QS ''0123456789'' ! (n mod 10) = QS ''0123456789'' ! (m mod 10)"
        by simp_all
      from "1.IH" [OF n a] have "n div 10 = m div 10" .
      moreover from b have "n mod 10 = m mod 10"
        by (intro digit_inj) simp_all
      ultimately show ?thesis
        by (metis div_mult_mod_eq)
    qed
  qed
qed

lemma candidate_x_chars:
  "0 \<le> k \<Longrightarrow> set (candidate (QS ''x'') k) \<subseteq> set (QS ''x0123456789'')"
  using decimal_chars [of "nat k"]
  by (auto simp add: candidate_def QString_number_def QS_def)

lemma candidate_x_hd: "\<exists>w. candidate (QS ''x'') k = QC CHR ''x'' # w"
  by (simp add: candidate_def QS_def)

lemma candidate_x_inj:
  assumes "0 \<le> j" "0 \<le> k" "candidate (QS ''x'') j = candidate (QS ''x'') k"
  shows "j = k"
proof -
  have ne: "\<And>i. QS ''x'' \<noteq> QS ''x'' @ QString_number i"
    using decimal_not_empty by (simp add: QString_number_def)
  show ?thesis
  proof (cases "j = 0 \<or> k = 0")
    case True
    with assms(3) ne show ?thesis
      by (auto simp add: candidate_def split: if_splits)
  next
    case False
    with assms have "decimal (nat j) = decimal (nat k)"
      by (simp add: candidate_def QString_number_def)
    then have "nat j = nat k" by (rule decimal_inj)
    with assms show ?thesis by simp
  qed
qed

lemma cleanPath_d:
  assumes "QC CHR ''/'' \<notin> set w" "w = QC CHR ''x'' # v"
  shows "QDir_cleanPath Linux (QS ''/d/'' @ w) = QS ''/d/'' @ w"
proof -
  have s: "QString_split (QC CHR ''/'') w = [w]"
    using assms(1) by (rule QString_split_no_sep)
  have w: "w \<noteq> []" "w \<noteq> QS ''.''" "w \<noteq> QS ''..''"
    using assms(2) by (simp_all add: QS_def QC_def)
  have sp: "QString_split (QC CHR ''/'') (QS ''/d/'' @ w) = [[], QS ''d'', w]"
    using s by (simp add: QS_def QC_def)
  have nz: "normalize_segments [[], QS ''d'', w] [] = [QS ''d'', w]"
    using w by (simp add: QS_def QC_def)
  have ne: "QS ''/d/'' @ w \<noteq> []" and hd: "hd (QS ''/d/'' @ w) = QC CHR ''/''"
    by (simp_all add: QS_def)
  have jn: "QC CHR ''/'' # QStringList_join [QS ''d'', w] (QS ''/'') = QS ''/d/'' @ w"
    by (simp add: QS_def)
  show ?thesis
    unfolding QDir_cleanPath_def QDir_fromNativeSeparators_def Let_def
    by (simp only: sp nz ne hd jn if_False if_True platform.distinct simp_thms)
qed

lemma PathCombine_d:
  assumes "0 \<le> k"
  shows "PathCombine Linux (QS ''/d'') (candidate (QS ''x'') k) = QS ''/d/'' @ candidate (QS ''x'') k"
    and "key crowded_fs (QS ''/d/'' @ candidate (QS ''x'') k) = QS ''/d/'' @ candidate (QS ''x'') k"
proof -
  obtain v where v: "candidate (QS ''x'') k = QC CHR ''x'' # v"
    using candidate_x_hd by blast
  have sl: "QC CHR ''/'' \<notin> set (candidate (QS ''x'') k)"
    using candidate_x_chars [OF assms] by (auto simp add: QS_def QC_def)
  note cp = cleanPath_d [OF sl v]
  have "QS ''/d'' @ QDir_separator Linux # candidate (QS ''x'') k = QS ''/d/'' @ candidate (QS ''x'') k"
    by (simp add: QS_def QDir_separator_def)
  then show "PathCombine Linux (QS ''/d'') (candidate (QS ''x'') k) = QS ''/d/'' @ candidate (QS ''x'') k"
    using cp v by (simp add: PathCombine_def QS_def)
  show "key crowded_fs (QS ''/d/'' @ candidate (QS ''x'') k) = QS ''/d/'' @ candidate (QS ''x'') k"
    using cp by (simp add: key_def QDir_absolutePath_def QDir_isRelativePath_def QS_def)
qed


lemma follow_Dir: "lookup s k = Some Dir \<Longrightarrow> follow_links n s k = Some Dir"
  by (cases n) simp_all

lemma follow_None: "lookup s k = None \<Longrightarrow> follow_links n s k = None"
  by (cases n) simp_all

lemma map_of_Dir_keys:
  "map_of (map (\<lambda>k. (f k, Dir)) ks) p = (if p \<in> f ` set ks then Some Dir else None)"
  by (induction ks) auto

lemma crowded_lookup:
  assumes "0 \<le> k"
  shows "lookup crowded_fs (QS ''/d/'' @ candidate (QS ''x'') k) =
           (if k \<le> 8999 then Some Dir else None)"
proof -
  let ?f = "\<lambda>k. QS ''/d/'' @ candidate (QS ''x'') k"
  have a: "?f k \<noteq> QS ''/''" "QS ''/d'' \<noteq> ?f k"
    by (simp_all add: QS_def)
  have "(?f k \<in> ?f ` set [0 .. 8999]) = (k \<le> 8999)"
  proof
    assume "?f k \<in> ?f ` set [0 .. 8999]"
    then obtain j where j: "0 \<le> j" "j \<le> 8999" "?f k = ?f j" by auto
    then have "candidate (QS ''x'') k = candidate (QS ''x'') j" by simp
    with assms j(1) have "k = j" by (intro candidate_x_inj)
    with j show "k \<le> 8999" by simp
  next
    assume "k \<le> 8999"
    with assms show "?f k \<in> ?f ` set [0 .. 8999]" by simp
  qed
  then show ?thesis
    using a by (simp add: lookup_def crowded_fs_def map_of_Dir_keys del: upto_rec_numeral)
qed

lemma crowded_exists:
  assumes "0 \<le> k"
  shows "QFileInfo_exists memqt crowded_fs (PathCombine Linux (QS ''/d'') (candidate (QS ''x'') k))
           = (k \<le> 8999)"
proof (cases "k \<le> 8999")
  case True
  with crowded_lookup [OF assms]
  have "follow_links (length (nodes crowded_fs)) crowded_fs (QS ''/d/'' @ candidate (QS ''x'') k) = Some Dir"
    by (intro follow_Dir) simp
  with True show ?thesis
    using PathCombine_d [OF assms] by (simp add: memqt_def mem_exists_def stat_def)
next
  case False
  with crowded_lookup [OF assms]
  have "follow_links (length (nodes crowded_fs)) crowded_fs (QS ''/d/'' @ candidate (QS ''x'') k) = None"
    by (intro follow_None) simp
  with False show ?thesis
    using PathCombine_d [OF assms] by (simp add: memqt_def mem_exists_def stat_def)
qed

lemma sanitize_x: "RemoveInvalidFilenameChars (QS ''x'') (QC CHR ''-'') = QS ''x''"
  by (simp add: RemoveInvalidFilenameChars_map QS_def QC_def badFilenameChars_def)

lemma candidate_9000: "candidate (QS ''x'') 9000 = QS ''x9000''"
  by (simp add: candidate_def QString_number_def decimal.simps QS_def)

text \<open>
  Claim C5 as it is stated fails. In the crowded state the 9000 probes \<^verbatim>\<open>/d/x\<close>,
  \<^verbatim>\<open>/d/x1\<close>, ..., \<^verbatim>\<open>/d/x8999\<close> all find an existing path, and the function does not
  return the empty string: it probes once more and returns \<^verbatim>\<open>x9000\<close>.
\<close>

theorem DirNameFromString_9000_taken:
  "probes_taken Linux memqt crowded_fs (QS ''/d'') (QS ''x'') 9000 \<and>
   DirNameFromString Linux memqt crowded_fs (QS ''x'') (QS ''/d'') = QS ''x9000''"
proof
  show "probes_taken Linux memqt crowded_fs (QS ''/d'') (QS ''x'') 9000"
    by (simp add: probes_taken_def list_all_iff crowded_exists del: upto_rec_numeral)
  have "find (\<lambda>k. \<not> QFileInfo_exists memqt crowded_fs
                     (PathCombine Linux (QS ''/d'') (candidate (QS ''x'') k))) [0 .. 9000]
          = Some 9000"
    by (rule find_upto_first) (simp_all add: crowded_exists)
  then show "DirNameFromString Linux memqt crowded_fs (QS ''x'') (QS ''/d'') = QS ''x9000''"
    by (simp add: DirNameFromString_find sanitize_x candidate_9000 del: upto_rec_numeral)
qed

text \<open>
  Claim C5, amended. For every desired name and parent directory,
  \<^verbatim>\<open>DirNameFromString\<close> replaces the forbidden characters of the name by \<^verbatim>\<open>-\<close>, then probes
  the combined paths of \<^verbatim>\<open>base\<close>, \<^verbatim>\<open>base1\<close>, \<^verbatim>\<open>base2\<close>, ..., \<^verbatim>\<open>base9000\<close> in order and
  returns the first of these names whose path does not exist; it returns the empty string
  when all 9001 exist (\<^verbatim>\<open>num > 9000\<close> is tested before the probe of \<^verbatim>\<open>base9001\<close>).
\<close>

theorem DirNameFromString_first_unused:
  "DirNameFromString os qt s string inDir =
     (case find (\<lambda>k. \<not> QFileInfo_exists qt s
                       (PathCombine os inDir
                          (candidate (RemoveInvalidFilenameChars string (QC CHR ''-'')) k)))
             [0 .. 9000] of
        None \<Rightarrow> []
      | Some k \<Rightarrow> candidate (RemoveInvalidFilenameChars string (QC CHR ''-'')) k)"
  by (rule DirNameFromString_find)

lemma example_probes:
  "QFileInfo_exists memqt example_fs
     (PathCombine Linux [] (candidate (RemoveInvalidFilenameChars (QS ''src'') (QC CHR ''-'')) 0))"
  "\<not> QFileInfo_exists memqt example_fs
     (PathCombine Linux [] (candidate (RemoveInvalidFilenameChars (QS ''src'') (QC CHR ''-'')) 1))"
  "candidate (RemoveInvalidFilenameChars (QS ''src'') (QC CHR ''-'')) 1 = QS ''src1''"
  by code_simp+

theorem DirNameFromString_first_unused_witness:
  "DirNameFromString Linux memqt example_fs (QS ''src'') [] = QS ''src1''"
proof -
  let ?P = "\<lambda>k. \<not> QFileInfo_exists memqt example_fs
                   (PathCombine Linux [] (candidate (RemoveInvalidFilenameChars (QS ''src'') (QC CHR ''-'')) k))"
  have "find ?P [0 .. 9000] = Some 1"
  proof (rule find_upto_first)
    show "\<forall>x. 0 \<le> x \<and> x < 1 \<longrightarrow> \<not> ?P x"
    proof (intro allI impI)
      fix x :: int
      assume "0 \<le> x \<and> x < 1"
      then have "x = 0" by simp
      then show "\<not> ?P x" using example_probes(1) by simp
    qed
    show "?P 1" by (rule example_probes(2))
  qed simp_all
  with DirNameFromString_first_unused [of Linux memqt example_fs "QS ''src''" "[]"]
  show ?thesis
    by (simp add: example_probes(3) del: upto_rec_numeral)
qed

section \<open>Properties of the recursive copy\<close>

lemma copyPath_entries_Cons:
  "copyPath_entries os qt fuel src dst fl (f # fs) OK s =
     (case entry_operation os qt fuel src dst fl f s of
        None \<Rightarrow> None
      | Some (r, s') \<Rightarrow> copyPath_entries os qt fuel src dst fl fs (OK \<and> r) s')"
proof -
  let ?src = "src @ QDir_separator os # f"
  consider (is_link) "\<not> fl \<and> QFileInfo_isSymLink qt s ?src"
    | (is_dir) "\<not> (\<not> fl \<and> QFileInfo_isSymLink qt s ?src) \<and> QFileInfo_isDir qt s ?src"
    | (is_file) "\<not> (\<not> fl \<and> QFileInfo_isSymLink qt s ?src) \<and> \<not> QFileInfo_isDir qt s ?src
        \<and> QFileInfo_isFile qt s ?src"
    | (is_other) "\<not> (\<not> fl \<and> QFileInfo_isSymLink qt s ?src) \<and> \<not> QFileInfo_isDir qt s ?src
        \<and> \<not> QFileInfo_isFile qt s ?src"
    by blast
  then show ?thesis
  proof cases
    case is_link
    then show ?thesis
      by (simp add: entry_operation_def Let_def split: prod.splits)
  next
    case is_dir
    then show ?thesis
      by (cases fuel) (auto simp add: entry_operation_def Let_def split: option.splits)
  next
    case is_file
    then show ?thesis
      by (auto simp add: entry_operation_def Let_def split: prod.splits)
  next
    case is_other
    then show ?thesis
      by (auto simp add: entry_operation_def Let_def)
  qed
qed

lemma copyPath_entries_results:
  "copyPath_entries os qt fuel src dst fl fs OK s =
     (case entry_results os qt fuel src dst fl fs s of
        None \<Rightarrow> None
      | Some (rs, s') \<Rightarrow> Some (OK \<and> list_all (\<lambda>r. r) rs, s'))"
proof (induction fs arbitrary: OK s)
  case Nil
  show ?case by simp
next
  case (Cons f fs)
  show ?case
    unfolding copyPath_entries_Cons
    by (cases "entry_operation os qt fuel src dst fl f s")
       (auto simp add: Cons.IH split: option.splits)
qed

lemma entry_results_length:
  "entry_results os qt fuel src dst fl fs s = Some (rs, s') \<Longrightarrow> length rs = length fs"
  by (induction fs arbitrary: s rs) (auto split: option.splits prod.splits)

lemma entry_operation_other:
  "\<not> (\<not> fl \<and> QFileInfo_isSymLink qt s (src @ QDir_separator os # f)) \<Longrightarrow>
   \<not> QFileInfo_isDir qt s (src @ QDir_separator os # f) \<Longrightarrow>
   \<not> QFileInfo_isFile qt s (src @ QDir_separator os # f) \<Longrightarrow>
   entry_operation os qt fuel src dst fl f s = Some (False, s)"
  by (auto simp add: entry_operation_def Let_def)

lemma copyPath_no_source:
  "\<not> QDir_exists qt s src \<Longrightarrow> copyPath os qt fuel src dst fl s = Some (False, s)"
  by (subst copyPath.simps) simp

lemma copyPath_no_destination:
  "QDir_exists qt s src \<Longrightarrow> \<not> fst (ensureFolderPathExists qt dst s) \<Longrightarrow>
   copyPath os qt fuel src dst fl s = Some (False, snd (ensureFolderPathExists qt dst s))"
  by (subst copyPath.simps, cases "ensureFolderPathExists qt dst s") (simp add: Let_def)

lemma copyPath_traversal:
  "QDir_exists qt s src \<Longrightarrow> fst (ensureFolderPathExists qt dst s) \<Longrightarrow>
   copyPath os qt fuel src dst fl s =
     (case entry_results os qt fuel src dst (os = Windows \<or> fl)
             (QDir_entryList qt (snd (ensureFolderPathExists qt dst s)) src)
             (snd (ensureFolderPathExists qt dst s)) of
        None \<Rightarrow> None
      | Some (rs, s') \<Rightarrow> Some (list_all (\<lambda>r. r) rs, s'))"
  by (subst copyPath.simps, cases "ensureFolderPathExists qt dst s")
     (auto simp add: Let_def copyPath_entries_results split: option.splits)

lemma copyPath_unfold:
  "copyPath os qt fuel src dst fl s =
     (if \<not> QDir_exists qt s src then Some (False, s)
      else if \<not> fst (ensureFolderPathExists qt dst s)
      then Some (False, snd (ensureFolderPathExists qt dst s))
      else copyPath_entries os qt fuel src dst (os = Windows \<or> fl)
             (QDir_entryList qt (snd (ensureFolderPathExists qt dst s)) src) True
             (snd (ensureFolderPathExists qt dst s)))"
  by (subst copyPath.simps, cases "ensureFolderPathExists qt dst s") (auto simp add: Let_def)

lemma entry_operation_fuel_mono:
  assumes ih: "\<And>m src dst fl s y. m < n \<Longrightarrow> copyPath os qt m src dst fl s = Some y
             \<Longrightarrow> copyPath os qt (m + k) src dst fl s = Some y"
    and op: "entry_operation os qt n src dst fl f s = Some y"
  shows "entry_operation os qt (n + k) src dst fl f s = Some y"
proof (cases "\<not> (\<not> fl \<and> QFileInfo_isSymLink qt s (src @ QDir_separator os # f))
               \<and> QFileInfo_isDir qt s (src @ QDir_separator os # f)")
  case False
  then have "entry_operation os qt (n + k) src dst fl f s = entry_operation os qt n src dst fl f s"
    by (auto simp add: entry_operation_def Let_def)
  with op show ?thesis by simp
next
  case True
  then have e: "\<And>j. entry_operation os qt j src dst fl f s =
      (case j of 0 \<Rightarrow> None
       | Suc m \<Rightarrow> copyPath os qt m (src @ QDir_separator os # f) (dst @ QDir_separator os # f) fl s)"
    by (auto simp add: entry_operation_def Let_def)
  from op obtain m where n: "n = Suc m"
    and c: "copyPath os qt m (src @ QDir_separator os # f) (dst @ QDir_separator os # f) fl s = Some y"
    by (cases n) (simp_all add: e)
  from ih [OF _ c] n
  have "copyPath os qt (m + k) (src @ QDir_separator os # f) (dst @ QDir_separator os # f) fl s
          = Some y"
    by simp
  with n show ?thesis by (simp add: e)
qed

lemma copyPath_entries_fuel_mono:
  assumes ih: "\<And>m src dst fl s y. m < n \<Longrightarrow> copyPath os qt m src dst fl s = Some y
             \<Longrightarrow> copyPath os qt (m + k) src dst fl s = Some y"
  shows "copyPath_entries os qt n src dst fl fs OK s = Some x
           \<Longrightarrow> copyPath_entries os qt (n + k) src dst fl fs OK s = Some x"
proof (induction fs arbitrary: OK s)
  case Nil
  then show ?case by simp
next
  case (Cons f fs)
  from Cons.prems obtain r s' where
    op: "entry_operation os qt n src dst fl f s = Some (r, s')" and
    rest: "copyPath_entries os qt n src dst fl fs (OK \<and> r) s' = Some x"
    unfolding copyPath_entries_Cons by (auto split: option.splits)
  have "entry_operation os qt (n + k) src dst fl f s = Some (r, s')"
    using ih op by (rule entry_operation_fuel_mono)
  with Cons.IH [OF rest] show ?case
    unfolding copyPath_entries_Cons by simp
qed

lemma copyPath_fuel_mono:
  "copyPath os qt n src dst fl s = Some x \<Longrightarrow> copyPath os qt (n + k) src dst fl s = Some x"
proof (induction n arbitrary: src dst fl s x rule: less_induct)
  case (less n)
  have sub: "\<And>fl' fs OK t y. copyPath_entries os qt n src dst fl' fs OK t = Some y
               \<Longrightarrow> copyPath_entries os qt (n + k) src dst fl' fs OK t = Some y"
    by (rule copyPath_entries_fuel_mono) (rule less.IH)
  show ?case
  proof (cases "QDir_exists qt s src \<and> fst (ensureFolderPathExists qt dst s)")
    case False
    then have "copyPath os qt (n + k) src dst fl s = copyPath os qt n src dst fl s"
      by (auto simp add: copyPath_unfold)
    with less.prems show ?thesis by simp
  next
    case True
    with less.prems have "copyPath_entries os qt n src dst (os = Windows \<or> fl)
             (QDir_entryList qt (snd (ensureFolderPathExists qt dst s)) src) True
             (snd (ensureFolderPathExists qt dst s)) = Some x"
      by (simp add: copyPath_unfold)
    then have "copyPath_entries os qt (n + k) src dst (os = Windows \<or> fl)
             (QDir_entryList qt (snd (ensureFolderPathExists qt dst s)) src) True
             (snd (ensureFolderPathExists qt dst s)) = Some x"
      by (rule sub)
    with True show ?thesis
      by (simp add: copyPath_unfold)
  qed
qed

text \<open>
  More fuel never changes a result: the bound on the depth only decides whether the model
  reaches the end of a walk.
\<close>

lemma copyPath_returns_with_more_fuel:
  "copyPath os qt n src dst fl s = Some x \<Longrightarrow> n \<le> m \<Longrightarrow> copyPath os qt m src dst fl s = Some x"
  using copyPath_fuel_mono [of os qt n src dst fl s x "m - n"] by simp

text \<open>
  The walk returns when the tree below the source is at most as deep as the fuel.
\<close>

lemma entry_operation_returns:
  assumes ih: "\<And>m src dst fl s. n = Suc m \<Longrightarrow> depth_within os qt m src
                 \<Longrightarrow> \<exists>r. copyPath os qt m src dst fl s = Some r"
    and d: "depth_within os qt n src"
  shows "\<exists>r. entry_operation os qt n src dst fl f s = Some r"
proof (cases n)
  case 0
  with d show ?thesis
    by (auto simp add: entry_operation_def Let_def)
next
  case (Suc m)
  show ?thesis
  proof (cases "QFileInfo_isDir qt s (src @ QDir_separator os # f)")
    case False
    then show ?thesis
      by (auto simp add: entry_operation_def Let_def)
  next
    case True
    with d Suc have "depth_within os qt m (src @ QDir_separator os # f)"
      by simp
    from ih [OF Suc this]
    obtain r where "copyPath os qt m (src @ QDir_separator os # f)
                      (dst @ QDir_separator os # f) fl s = Some r"
      by blast
    with Suc True show ?thesis
      by (auto simp add: entry_operation_def Let_def)
  qed
qed

lemma copyPath_entries_returns:
  assumes ih: "\<And>m src dst fl s. n = Suc m \<Longrightarrow> depth_within os qt m src
                 \<Longrightarrow> \<exists>r. copyPath os qt m src dst fl s = Some r"
    and d: "depth_within os qt n src"
  shows "\<exists>r. copyPath_entries os qt n src dst fl fs OK s = Some r"
proof (induction fs arbitrary: OK s)
  case Nil
  show ?case by simp
next
  case (Cons f fs)
  from entry_operation_returns [OF ih d]
  obtain r s' where "entry_operation os qt n src dst fl f s = Some (r, s')"
    by (metis surj_pair)
  with Cons.IH [of "OK \<and> r" s'] show ?case
    unfolding copyPath_entries_Cons by simp
qed

lemma copyPath_returns:
  "depth_within os qt n src \<Longrightarrow> \<exists>r. copyPath os qt n src dst fl s = Some r"
proof (induction n arbitrary: src dst fl s rule: less_induct)
  case (less n)
  have "\<exists>r. copyPath_entries os qt n src dst fl' fs OK t = Some r" for fl' fs OK t
  proof (rule copyPath_entries_returns)
    show "\<exists>r. copyPath os qt m src dst fl s = Some r"
      if "n = Suc m" "depth_within os qt m src" for m src dst fl s
      using that less.IH [of m src dst fl s] by simp
  qed (rule less.prems)
  then show ?case
    by (auto simp add: copyPath_unfold)
qed

text \<open>
  Claim C3, amended. For every existing source directory whose destination tree
  \<^verbatim>\<open>ensureFolderPathExists\<close> could create, \<^verbatim>\<open>copyPath\<close> performs the operation of every entry
  of the source, in order and whatever the results so far (there are as many results as
  entries), and returns the conjunction of their successes; the walk does not return
  where a recursive copy does not. The operation of an entry that is neither a link to
  recreate, nor a directory, nor a file fails and changes nothing.
\<close>

theorem copyPath_conjunction_of_entries:
  assumes "QDir_exists qt s src" and "fst (ensureFolderPathExists qt dst s)"
  shows
    "copyPath os qt fuel src dst follow_symlinks s =
       (case entry_results os qt fuel src dst (os = Windows \<or> follow_symlinks)
               (QDir_entryList qt (snd (ensureFolderPathExists qt dst s)) src)
               (snd (ensureFolderPathExists qt dst s)) of
          None \<Rightarrow> None
        | Some (rs, s') \<Rightarrow> Some (list_all (\<lambda>r. r) rs, s')) \<and>
     (\<forall>rs s'. entry_results os qt fuel src dst (os = Windows \<or> follow_symlinks)
                 (QDir_entryList qt (snd (ensureFolderPathExists qt dst s)) src)
                 (snd (ensureFolderPathExists qt dst s)) = Some (rs, s')
        \<longrightarrow> length rs = length (QDir_entryList qt (snd (ensureFolderPathExists qt dst s)) src)) \<and>
     (\<forall>f t. \<not> (\<not> (os = Windows \<or> follow_symlinks)
                 \<and> QFileInfo_isSymLink qt t (src @ QDir_separator os # f))
             \<and> \<not> QFileInfo_isDir qt t (src @ QDir_separator os # f)
             \<and> \<not> QFileInfo_isFile qt t (src @ QDir_separator os # f)
        \<longrightarrow> entry_operation os qt fuel src dst (os = Windows \<or> follow_symlinks) f t
              = Some (False, t))"
proof (intro conjI allI impI)
  show "copyPath os qt fuel src dst follow_symlinks s =
       (case entry_results os qt fuel src dst (os = Windows \<or> follow_symlinks)
               (QDir_entryList qt (snd (ensureFolderPathExists qt dst s)) src)
               (snd (ensureFolderPathExists qt dst s)) of
          None \<Rightarrow> None
        | Some (rs, s') \<Rightarrow> Some (list_all (\<lambda>r. r) rs, s'))"
    using assms by (rule copyPath_traversal)
next
  fix rs s'
  assume "entry_results os qt fuel src dst (os = Windows \<or> follow_symlinks)
            (QDir_entryList qt (snd (ensureFolderPathExists qt dst s)) src)
            (snd (ensureFolderPathExists qt dst s)) = Some (rs, s')"
  then show "length rs = length (QDir_entryList qt (snd (ensureFolderPathExists qt dst s)) src)"
    by (rule entry_results_length)
next
  fix f t
  assume "\<not> (\<not> (os = Windows \<or> follow_symlinks)
                 \<and> QFileInfo_isSymLink qt t (src @ QDir_separator os # f))
             \<and> \<not> QFileInfo_isDir qt t (src @ QDir_separator os # f)
             \<and> \<not> QFileInfo_isFile qt t (src @ QDir_separator os # f)"
  then show "entry_operation os qt fuel src dst (os = Windows \<or> follow_symlinks) f t
              = Some (False, t)"
    by (intro entry_operation_other) simp_all
qed

theorem copyPath_conjunction_of_entries_witness:
  "QDir_exists memqt example_fs (QS ''src'') \<and>
   fst (ensureFolderPathExists memqt (QS ''dst'') example_fs) \<and>
   QDir_entryList memqt (snd (ensureFolderPathExists memqt (QS ''dst'') example_fs)) (QS ''src'')
     = [QS ''a.txt'', QS ''pipe'', QS ''z.txt''] \<and>
   map_option fst
     (entry_results Linux memqt 0 (QS ''src'') (QS ''dst'') False
        (QDir_entryList memqt (snd (ensureFolderPathExists memqt (QS ''dst'') example_fs)) (QS ''src''))
        (snd (ensureFolderPathExists memqt (QS ''dst'') example_fs)))
     = Some [True, False, True] \<and>
   map_option fst (copyPath Linux memqt 0 (QS ''src'') (QS ''dst'') False example_fs) = Some False \<and>
   (case copyPath Linux memqt 0 (QS ''src'') (QS ''dst'') False example_fs of
      None \<Rightarrow> None
    | Some (r, s') \<Rightarrow> mem_content s' (QS ''dst/z.txt'')) = Some [0x7A]"
proof -
  have 1: "QDir_exists memqt example_fs (QS ''src'')"
    by code_simp
  have 2: "fst (ensureFolderPathExists memqt (QS ''dst'') example_fs)"
    by code_simp
  have 3: "QDir_entryList memqt (snd (ensureFolderPathExists memqt (QS ''dst'') example_fs)) (QS ''src'')
             = [QS ''a.txt'', QS ''pipe'', QS ''z.txt'']"
    by code_simp
  have 4: "map_option fst
     (entry_results Linux memqt 0 (QS ''src'') (QS ''dst'') False
        (QDir_entryList memqt (snd (ensureFolderPathExists memqt (QS ''dst'') example_fs)) (QS ''src''))
        (snd (ensureFolderPathExists memqt (QS ''dst'') example_fs)))
     = Some [True, False, True]"
    by code_simp
  then obtain s' where r:
    "entry_results Linux memqt 0 (QS ''src'') (QS ''dst'') False
        (QDir_entryList memqt (snd (ensureFolderPathExists memqt (QS ''dst'') example_fs)) (QS ''src''))
        (snd (ensureFolderPathExists memqt (QS ''dst'') example_fs)) = Some ([True, False, True], s')"
    by auto
  from copyPath_conjunction_of_entries [OF 1 2, of Linux 0 False, THEN conjunct1]
  have "copyPath Linux memqt 0 (QS ''src'') (QS ''dst'') False example_fs = Some (False, s')"
    by (simp add: r)
  then have 5: "map_option fst (copyPath Linux memqt 0 (QS ''src'') (QS ''dst'') False example_fs)
                  = Some False"
    by simp
  have 6: "(case copyPath Linux memqt 0 (QS ''src'') (QS ''dst'') False example_fs of
      None \<Rightarrow> None
    | Some (r, s') \<Rightarrow> mem_content s' (QS ''dst/z.txt'')) = Some [0x7A]"
    by code_simp
  from 1 2 3 4 5 6 show ?thesis by (intro conjI)
qed

text \<open>
  Claim C3 as it is stated fails where the destination cannot be created. The source
  \<^verbatim>\<open>empty\<close> exists and has no entry, so that the conjunction over the operations of its
  entries is true; the destination \<^verbatim>\<open>src/a.txt/sub\<close> lies below a file, and \<^verbatim>\<open>copyPath\<close>
  returns false (line 90).
\<close>

theorem copyPath_empty_source_no_destination:
  "QDir_exists memqt example_fs (QS ''empty'') \<and>
   entry_results Linux memqt 0 (QS ''empty'') (QS ''src/a.txt/sub'') False
     (QDir_entryList memqt example_fs (QS ''empty'')) example_fs = Some ([], example_fs) \<and>
   copyPath Linux memqt 0 (QS ''empty'') (QS ''src/a.txt/sub'') False example_fs
     = Some (False, example_fs)"
proof (intro conjI)
  show "QDir_exists memqt example_fs (QS ''empty'')"
    by code_simp
  show "entry_results Linux memqt 0 (QS ''empty'') (QS ''src/a.txt/sub'') False
     (QDir_entryList memqt example_fs (QS ''empty'')) example_fs = Some ([], example_fs)"
    by code_simp
  show "copyPath Linux memqt 0 (QS ''empty'') (QS ''src/a.txt/sub'') False example_fs
     = Some (False, example_fs)"
    by code_simp
qed

text \<open>
  Claim C4. When the source does not exist as a directory, \<^verbatim>\<open>copyPath\<close> returns false and
  leaves the file system as it was: nothing of the destination is created. When the source
  exists and the destination tree cannot be created, it returns false as well.
\<close>

theorem copyPath_early_failure:
  "(\<not> QDir_exists qt s src \<longrightarrow> copyPath os qt fuel src dst follow_symlinks s = Some (False, s)) \<and>
   (QDir_exists qt s src \<and> \<not> fst (ensureFolderPathExists qt dst s) \<longrightarrow>
      copyPath os qt fuel src dst follow_symlinks s
        = Some (False, snd (ensureFolderPathExists qt dst s)))"
  by (simp add: copyPath_no_source copyPath_no_destination)

theorem copyPath_early_failure_witness:
  "\<not> QDir_exists memqt example_fs (QS ''nosuch'') \<and>
   copyPath Linux memqt 0 (QS ''nosuch'') (QS ''dst'') False example_fs = Some (False, example_fs) \<and>
   \<not> QFileInfo_exists memqt example_fs (QS ''dst'') \<and>
   QDir_exists memqt example_fs (QS ''src'') \<and>
   \<not> fst (ensureFolderPathExists memqt (QS ''src/a.txt/sub'') example_fs) \<and>
   map_option fst (copyPath Linux memqt 0 (QS ''src'') (QS ''src/a.txt/sub'') False example_fs)
     = Some False"
proof -
  have 1: "\<not> QDir_exists memqt example_fs (QS ''nosuch'')"
    by code_simp
  have 2: "\<not> QFileInfo_exists memqt example_fs (QS ''dst'')"
    by code_simp
  have 3: "QDir_exists memqt example_fs (QS ''src'')"
    by code_simp
  have 4: "\<not> fst (ensureFolderPathExists memqt (QS ''src/a.txt/sub'') example_fs)"
    by code_simp
  note th = copyPath_early_failure
    [where qt = memqt and s = example_fs and os = Linux and fuel = 0 and follow_symlinks = False]
  from th [where src = "QS ''nosuch''" and dst = "QS ''dst''"] 1
  have 5: "copyPath Linux memqt 0 (QS ''nosuch'') (QS ''dst'') False example_fs
             = Some (False, example_fs)"
    by blast
  from th [where src = "QS ''src''" and dst = "QS ''src/a.txt/sub''"] 3 4
  have "copyPath Linux memqt 0 (QS ''src'') (QS ''src/a.txt/sub'') False example_fs
          = Some (False, snd (ensureFolderPathExists memqt (QS ''src/a.txt/sub'') example_fs))"
    by blast
  then have 6: "map_option fst
      (copyPath Linux memqt 0 (QS ''src'') (QS ''src/a.txt/sub'') False example_fs) = Some False"
    by simp
  from 1 5 2 3 4 6 show ?thesis by (intro conjI)
qed

section \<open>Properties of shortcut creation\<close>

text \<open>
  Claim C9. On Linux \<^verbatim>\<open>createShortCut\<close> returns true for every input and every answer of the
  file system. When the descriptor file could not be opened, nothing is written: the only
  call that follows is the one that sets the permissions.
\<close>

theorem createShortCut_Linux_reports_success:
  "fst (createShortCut Linux qt location dest args name icon s) = True \<and>
   (\<not> fst (QFile_open qt (PathCombine Linux location (name @ QS ''.desktop'')) s) \<longrightarrow>
      snd (createShortCut Linux qt location dest args name icon s)
        = snd (QFile_setPermissions qt (PathCombine Linux location (name @ QS ''.desktop''))
                 (or (QFile_permissions qt
                        (snd (QFile_open qt (PathCombine Linux location (name @ QS ''.desktop'')) s))
                        (PathCombine Linux location (name @ QS ''.desktop''))) 0x1011)
                 (snd (QFile_open qt (PathCombine Linux location (name @ QS ''.desktop'')) s))))"
  by (auto simp add: createShortCut_def Let_def split: prod.splits)

theorem createShortCut_Linux_reports_success_witness:
  "\<not> fst (QFile_open memqt (PathCombine Linux (QS ''/home/user/Desktop'') (QS ''App'' @ QS ''.desktop''))
            example_fs) \<and>
   createShortCut Linux memqt (QS ''/home/user/Desktop'') (QS ''/usr/bin/app'') [QS ''-l'']
     (QS ''App'') (QS ''icon'') example_fs = (True, example_fs) \<and>
   mem_content example_fs (QS ''/home/user/Desktop/App.desktop'') = None"
proof -
  have 1: "\<not> fst (QFile_open memqt
             (PathCombine Linux (QS ''/home/user/Desktop'') (QS ''App'' @ QS ''.desktop'')) example_fs)"
    by code_simp
  have 2: "snd (QFile_setPermissions memqt
                 (PathCombine Linux (QS ''/home/user/Desktop'') (QS ''App'' @ QS ''.desktop''))
                 (or (QFile_permissions memqt
                        (snd (QFile_open memqt
                           (PathCombine Linux (QS ''/home/user/Desktop'') (QS ''App'' @ QS ''.desktop''))
                           example_fs))
                        (PathCombine Linux (QS ''/home/user/Desktop'') (QS ''App'' @ QS ''.desktop'')))
                     0x1011)
                 (snd (QFile_open memqt
                    (PathCombine Linux (QS ''/home/user/Desktop'') (QS ''App'' @ QS ''.desktop''))
                    example_fs))) = example_fs"
    by code_simp
  note th = createShortCut_Linux_reports_success
    [of memqt "QS ''/home/user/Desktop''" "QS ''/usr/bin/app''" "[QS ''-l'']" "QS ''App''" "QS ''icon''"
        example_fs]
  from th 1 2 have
    "fst (createShortCut Linux memqt (QS ''/home/user/Desktop'') (QS ''/usr/bin/app'') [QS ''-l'']
            (QS ''App'') (QS ''icon'') example_fs) = True"
    "snd (createShortCut Linux memqt (QS ''/home/user/Desktop'') (QS ''/usr/bin/app'') [QS ''-l'']
            (QS ''App'') (QS ''icon'') example_fs) = example_fs"
    by simp_all
  then have 3: "createShortCut Linux memqt (QS ''/home/user/Desktop'') (QS ''/usr/bin/app'') [QS ''-l'']
     (QS ''App'') (QS ''icon'') example_fs = (True, example_fs)"
    by (simp add: prod_eq_iff)
  have 4: "mem_content example_fs (QS ''/home/user/Desktop/App.desktop'') = None"
    by code_simp
  from 1 3 4 show ?thesis by (intro conjI)
qed

section \<open>Properties of writing and reading\<close>

lemma lookup_cong:
  "nodes s' = nodes s \<Longrightarrow> lookup s' k = lookup s k"
  by (simp add: lookup_def)

lemma map_of_fold_add_dir:
  "map_of (fold add_dir ks ns) k =
     (case map_of ns k of Some n \<Rightarrow> Some n | None \<Rightarrow> if k \<in> set ks then Some Dir else None)"
  by (induction ks arbitrary: ns) (auto simp add: add_dir_def map_add_def split: option.splits)

lemma mem_mkpath_state:
  "cwd (snd (mem_mkpath q s)) = cwd s \<and> read_limit (snd (mem_mkpath q s)) = read_limit s"
  by (simp add: mem_mkpath_def Let_def)

lemma mem_mkpath_lookup:
  "lookup (snd (mem_mkpath q s)) k = lookup s k \<or>
   (lookup s k = None \<and> lookup (snd (mem_mkpath q s)) k = Some Dir \<and>
    k \<in> set (ancestors (key s q)))"
  by (auto simp add: mem_mkpath_def Let_def lookup_def map_of_fold_add_dir split: option.splits)

lemma map_of_set_node:
  "map_of (set_node k n ns) k' = (if k' = k then Some n else map_of ns k')"
proof (cases "map_of ns k = None")
  case True
  then show ?thesis
    by (auto simp add: set_node_def map_add_def split: option.splits)
next
  case False
  have "map_of (map (\<lambda>(k', n'). if k' = k then (k', n) else (k', n')) ns) k' =
          (if k' = k \<and> map_of ns k \<noteq> None then Some n else map_of ns k')"
    by (induction ns) auto
  moreover from False
  have "set_node k n ns = map (\<lambda>(k', n'). if k' = k then (k', n) else (k', n')) ns"
    by (simp only: set_node_def if_False)
  ultimately show ?thesis
    using False by simp
qed

lemma ensureExists_mem:
  "snd (ensureExists os memqt dir s) = snd (mem_mkpath (QDir_absolutePath os (cwd s) dir) s)"
  by (cases "mem_mkpath (QDir_absolutePath os (cwd s) dir) s")
     (simp add: ensureExists_def memqt_def Let_def)

lemma ensureExists_state:
  "cwd (snd (ensureExists os memqt dir s)) = cwd s \<and>
   read_limit (snd (ensureExists os memqt dir s)) = read_limit s"
  by (simp only: ensureExists_mem mem_mkpath_state)

lemma ensureExists_lookup:
  "lookup (snd (ensureExists os memqt (QFileInfo_dir p) s)) k = lookup s k \<or>
   (lookup s k = None \<and> lookup (snd (ensureExists os memqt (QFileInfo_dir p) s)) k = Some Dir \<and>
    k \<in> set (made_directories os s p))"
  unfolding ensureExists_mem made_directories_def by (rule mem_mkpath_lookup)

lemma mem_save_open_state:
  "cwd (snd (mem_save_open p s)) = cwd s \<and> read_limit (snd (mem_save_open p s)) = read_limit s \<and>
   nodes (snd (mem_save_open p s)) = nodes s"
  by (simp add: mem_save_open_def Let_def)

lemma mem_save_open_ok:
  "fst (mem_save_open p s) \<Longrightarrow>
   map_of (pending (snd (mem_save_open p s))) (key s p) = Some [] \<and> key s p \<noteq> QS ''/'' \<and>
   lookup s (key s p) \<noteq> Some Dir"
  by (auto simp add: mem_save_open_def Let_def lookup_def split: if_splits)

lemma mem_save_write_state:
  "cwd (snd (mem_save_write p d s)) = cwd s \<and>
   read_limit (snd (mem_save_write p d s)) = read_limit s \<and>
   nodes (snd (mem_save_write p d s)) = nodes s"
  by (simp add: mem_save_write_def Let_def split: option.splits)

lemma mem_save_write_all:
  "map_of (pending s) (key s p) = Some b \<Longrightarrow> fst (mem_save_write p d s) = int (length d) \<Longrightarrow>
   map_of (pending (snd (mem_save_write p d s))) (key s p) = Some (b @ d)"
  by (auto simp add: mem_save_write_def Let_def min_def split: if_splits)

lemma mem_save_commit_state:
  "cwd (snd (mem_save_commit p s)) = cwd s \<and>
   read_limit (snd (mem_save_commit p s)) = read_limit s"
  by (simp add: mem_save_commit_def Let_def split: option.splits)

lemma mem_save_commit_failed:
  "\<not> fst (mem_save_commit p s) \<Longrightarrow> nodes (snd (mem_save_commit p s)) = nodes s"
  by (simp add: mem_save_commit_def Let_def split: option.splits if_splits)

lemma mem_save_commit_ok:
  "fst (mem_save_commit p s) \<Longrightarrow> map_of (pending s) (key s p) = Some b \<Longrightarrow> key s p \<noteq> QS ''/'' \<Longrightarrow>
   lookup (snd (mem_save_commit p s)) (key s p) =
     Some (File b (case lookup s (key s p) of Some (File b' m) \<Rightarrow> m | _ \<Rightarrow> 0x6644))"
  by (simp add: mem_save_commit_def Let_def lookup_def map_of_set_node split: if_splits)

lemma mem_save_destroy_state:
  "cwd (mem_save_destroy p s) = cwd s \<and> read_limit (mem_save_destroy p s) = read_limit s \<and>
   nodes (mem_save_destroy p s) = nodes s"
  by (simp add: mem_save_destroy_def)

lemma FS_write_steps_unfold:
  "FS_write_steps os qt p d s =
     (case fst (ensureExists os qt (QFileInfo_dir p) s) of
        Inl e \<Rightarrow> (Inl e, [s, snd (ensureExists os qt (QFileInfo_dir p) s)])
      | Inr u \<Rightarrow>
          (let s1 = snd (ensureExists os qt (QFileInfo_dir p) s);
               s2 = snd (QSaveFile_open qt p s1);
               s3 = snd (QSaveFile_write qt p d s2);
               s4 = snd (QSaveFile_commit qt p s3)
           in if \<not> fst (QSaveFile_open qt p s1)
              then (Inl (CouldntOpenForWriting p), [s, s1, s2, QSaveFile_destroy qt p s2])
              else if int (length d) \<noteq> fst (QSaveFile_write qt p d s2)
              then (Inl (ErrorWritingData p), [s, s1, s2, s3, QSaveFile_destroy qt p s3])
              else if \<not> fst (QSaveFile_commit qt p s3)
              then (Inl (ErrorCommittingData p), [s, s1, s2, s3, s4, QSaveFile_destroy qt p s4])
              else (Inr (), [s, s1, s2, s3, s4, QSaveFile_destroy qt p s4])))"
  by (simp add: FS_write_steps_def Let_def split: prod.splits sum.splits)

lemma memqt_save [simp]:
  "QSaveFile_open memqt = mem_save_open" "QSaveFile_write memqt = mem_save_write"
  "QSaveFile_commit memqt = mem_save_commit" "QSaveFile_destroy memqt = mem_save_destroy"
  by (simp_all add: memqt_def)

lemma FS_write_steps_mem:
  fixes os p d s
  defines "s1 \<equiv> snd (ensureExists os memqt (QFileInfo_dir p) s)"
  defines "s2 \<equiv> snd (mem_save_open p s1)"
  defines "s3 \<equiv> snd (mem_save_write p d s2)"
  defines "s4 \<equiv> snd (mem_save_commit p s3)"
  shows "(\<exists>e. FS_write_steps os memqt p d s = (Inl e, [s, s1])) \<or>
         (\<exists>e. FS_write_steps os memqt p d s = (Inl e, [s, s1, s2, mem_save_destroy p s2])) \<or>
         (\<exists>e. FS_write_steps os memqt p d s = (Inl e, [s, s1, s2, s3, mem_save_destroy p s3])) \<or>
         (\<exists>e. FS_write_steps os memqt p d s = (Inl e, [s, s1, s2, s3, s4, mem_save_destroy p s4])
              \<and> \<not> fst (mem_save_commit p s3)) \<or>
         (FS_write_steps os memqt p d s = (Inr (), [s, s1, s2, s3, s4, mem_save_destroy p s4])
            \<and> fst (mem_save_open p s1) \<and> fst (mem_save_write p d s2) = int (length d)
            \<and> fst (mem_save_commit p s3))"
  unfolding s1_def s2_def s3_def s4_def
  by (subst (1 2 3 4 5) FS_write_steps_unfold) (auto simp add: Let_def split: sum.splits)

lemma FS_write_steps_mem_nodes:
  fixes os p d s
  defines "s1 \<equiv> snd (ensureExists os memqt (QFileInfo_dir p) s)"
  defines "s2 \<equiv> snd (mem_save_open p s1)"
  defines "s3 \<equiv> snd (mem_save_write p d s2)"
  defines "s4 \<equiv> snd (mem_save_commit p s3)"
  shows "nodes s2 = nodes s1"
    and "nodes (mem_save_destroy p s2) = nodes s1"
    and "nodes s3 = nodes s1"
    and "nodes (mem_save_destroy p s3) = nodes s1"
    and "\<not> fst (mem_save_commit p s3) \<Longrightarrow> nodes s4 = nodes s1"
    and "\<not> fst (mem_save_commit p s3) \<Longrightarrow> nodes (mem_save_destroy p s4) = nodes s1"
    and "fst (mem_save_open p s1) \<Longrightarrow> fst (mem_save_write p d s2) = int (length d) \<Longrightarrow>
           fst (mem_save_commit p s3) \<Longrightarrow>
           lookup s4 (key s p) =
             Some (File d (case lookup s (key s p) of Some (File b m) \<Rightarrow> m | _ \<Rightarrow> 0x6644)) \<and>
           lookup (mem_save_destroy p s4) (key s p) =
             Some (File d (case lookup s (key s p) of Some (File b m) \<Rightarrow> m | _ \<Rightarrow> 0x6644)) \<and>
           cwd (mem_save_destroy p s4) = cwd s \<and>
           read_limit (mem_save_destroy p s4) = read_limit s"
proof -
  have c1: "cwd s1 = cwd s" and r1: "read_limit s1 = read_limit s"
    unfolding s1_def using ensureExists_state by simp_all
  have c2: "cwd s2 = cwd s1" and r2: "read_limit s2 = read_limit s1" and n2: "nodes s2 = nodes s1"
    unfolding s2_def using mem_save_open_state by simp_all
  have c3: "cwd s3 = cwd s2" and r3: "read_limit s3 = read_limit s2" and n3: "nodes s3 = nodes s2"
    unfolding s3_def using mem_save_write_state by simp_all
  have c4: "cwd s4 = cwd s3" and r4: "read_limit s4 = read_limit s3"
    unfolding s4_def using mem_save_commit_state by simp_all
  have k: "key s1 p = key s p" "key s2 p = key s p" "key s3 p = key s p"
    using c1 c2 c3 by (simp_all add: key_def)
  show "nodes s2 = nodes s1" by (rule n2)
  show "nodes (mem_save_destroy p s2) = nodes s1"
    using mem_save_destroy_state [of p s2] n2 by simp
  show n3': "nodes s3 = nodes s1"
    using n3 n2 by simp
  show "nodes (mem_save_destroy p s3) = nodes s1"
    using mem_save_destroy_state [of p s3] n3' by simp
  {
    assume f: "\<not> fst (mem_save_commit p s3)"
    then have "nodes s4 = nodes s3"
      unfolding s4_def by (rule mem_save_commit_failed)
    with n3' show n4: "nodes s4 = nodes s1"
      by simp
    show "nodes (mem_save_destroy p s4) = nodes s1"
      using mem_save_destroy_state [of p s4] n4 by simp
  }
  {
    assume o: "fst (mem_save_open p s1)" and w: "fst (mem_save_write p d s2) = int (length d)"
      and c: "fst (mem_save_commit p s3)"
    from mem_save_open_ok [OF o]
    have p2: "map_of (pending s2) (key s2 p) = Some []" and root: "key s p \<noteq> QS ''/''"
      and nd: "lookup s1 (key s p) \<noteq> Some Dir"
      unfolding s2_def [symmetric] by (simp_all add: k)
    from ensureExists_lookup [of os p s "key s p"] nd
    have l1: "lookup s1 (key s p) = lookup s (key s p)"
      unfolding s1_def [symmetric] by auto
    from mem_save_write_all [OF p2 w]
    have p3: "map_of (pending s3) (key s3 p) = Some d"
      unfolding s3_def [symmetric] by (simp add: k)
    have l3: "lookup s3 (key s p) = lookup s (key s p)"
      using lookup_cong [OF n3'] l1 by simp
    from mem_save_commit_ok [OF c p3] root
    have l4: "lookup s4 (key s p) =
                Some (File d (case lookup s (key s p) of Some (File b m) \<Rightarrow> m | _ \<Rightarrow> 0x6644))"
      unfolding s4_def [symmetric] by (simp add: k l3)
    have l5: "lookup (mem_save_destroy p s4) (key s p) = lookup s4 (key s p)"
      using mem_save_destroy_state [of p s4] by (simp add: lookup_def)
    show "lookup s4 (key s p) =
            Some (File d (case lookup s (key s p) of Some (File b m) \<Rightarrow> m | _ \<Rightarrow> 0x6644)) \<and>
          lookup (mem_save_destroy p s4) (key s p) =
            Some (File d (case lookup s (key s p) of Some (File b m) \<Rightarrow> m | _ \<Rightarrow> 0x6644)) \<and>
          cwd (mem_save_destroy p s4) = cwd s \<and>
          read_limit (mem_save_destroy p s4) = read_limit s"
      using l4 l5 mem_save_destroy_state [of p s4] c1 c2 c3 c4 r1 r2 r3 r4 by simp
  }
qed

lemma FS_write_success_node:
  assumes "FS_write os memqt p d s = (Inr (), s')"
  shows "cwd s' = cwd s \<and> read_limit s' = read_limit s \<and>
         lookup s' (key s p) =
           Some (File d (case lookup s (key s p) of Some (File b m) \<Rightarrow> m | _ \<Rightarrow> 0x6644))"
proof -
  note c = FS_write_steps_mem_nodes
  from FS_write_steps_mem [of os p d s] assms show ?thesis
    by (elim disjE exE conjE) (auto simp add: FS_write_def c)
qed

lemma FS_write_failure_nodes:
  assumes "FS_write os memqt p d s = (Inl e, s')"
  shows "nodes s' = nodes (snd (ensureExists os memqt (QFileInfo_dir p) s))"
proof -
  note c = FS_write_steps_mem_nodes
  from FS_write_steps_mem [of os p d s] assms show ?thesis
    by (elim disjE exE conjE) (auto simp add: FS_write_def c)
qed

lemma FS_write_steps_nodes:
  assumes "st \<in> set (snd (FS_write_steps os memqt p d s))"
  shows "nodes st = nodes s \<or>
         nodes st = nodes (snd (ensureExists os memqt (QFileInfo_dir p) s)) \<or>
         (\<exists>m. lookup st (key s p) = Some (File d m))"
proof -
  note c = FS_write_steps_mem_nodes
  from FS_write_steps_mem [of os p d s] assms show ?thesis
    by (elim disjE exE conjE) (auto simp add: c)
qed

lemma FS_write_success_content:
  assumes "FS_write os memqt p d s = (Inr (), s')"
  shows "mem_content s' p = Some d"
  using FS_write_success_node [OF assms]
  by (simp add: mem_content_def key_def file_bytes_def)

lemma FS_write_failure_lookup:
  assumes "FS_write os memqt p d s = (Inl e, s')"
  shows "lookup s' k = lookup s k \<or>
         (lookup s k = None \<and> lookup s' k = Some Dir \<and> k \<in> set (made_directories os s p))"
  using ensureExists_lookup [of os p s k] lookup_cong [OF FS_write_failure_nodes [OF assms], of k]
  by simp

lemma FS_write_steps_lookup:
  assumes "st \<in> set (snd (FS_write_steps os memqt p d s))"
  shows "lookup st (key s p) = lookup s (key s p) \<or>
         (lookup s (key s p) = None \<and> lookup st (key s p) = Some Dir \<and>
          key s p \<in> set (made_directories os s p)) \<or>
         (\<exists>m. lookup st (key s p) = Some (File d m))"
proof -
  from FS_write_steps_nodes [OF assms]
  consider (same) "nodes st = nodes s"
    | (made) "nodes st = nodes (snd (ensureExists os memqt (QFileInfo_dir p) s))"
    | (written) "\<exists>m. lookup st (key s p) = Some (File d m)"
    by blast
  then show ?thesis
  proof cases
    case same
    then show ?thesis
      using lookup_cong [OF same, of "key s p"] by simp
  next
    case made
    then show ?thesis
      using ensureExists_lookup [of os p s "key s p"] lookup_cong [OF made, of "key s p"]
      by auto
  next
    case written
    then show ?thesis
      by simp
  qed
qed

text \<open>
  Claim C1, amended. For every destination path \<open>p\<close>, buffer \<open>d\<close> and state of the file
  system in memory: if \<^verbatim>\<open>FS::write(p, d)\<close> returns, the file at \<open>p\<close> holds exactly the bytes of
  \<open>d\<close>. If it throws, whichever exception, every path of the file system leads to what it
  led to before, except that a path that led to nothing may now lead to a directory, and
  then it is one of the directories that the call asked for on the way to \<open>p\<close>: the
  directories that were made stay. And in every state the file system goes through during
  the call, which is what a reader of \<open>p\<close> can observe, the path \<open>p\<close> leads to what it led
  to before, or to such a new directory, or to a file that holds all of \<open>d\<close>: never a part
  of it.
\<close>

theorem FS_write_atomic:
  "(\<forall>s'. FS_write os memqt p d s = (Inr (), s') \<longrightarrow> mem_content s' p = Some d) \<and>
   (\<forall>e s'. FS_write os memqt p d s = (Inl e, s') \<longrightarrow>
      (\<forall>k. lookup s' k = lookup s k \<or>
           (lookup s k = None \<and> lookup s' k = Some Dir \<and>
            k \<in> set (made_directories os s p)))) \<and>
   (\<forall>st \<in> set (snd (FS_write_steps os memqt p d s)).
      lookup st (key s p) = lookup s (key s p) \<or>
      (lookup s (key s p) = None \<and> lookup st (key s p) = Some Dir \<and>
       key s p \<in> set (made_directories os s p)) \<or>
      (\<exists>m. lookup st (key s p) = Some (File d m)))"
proof (intro conjI allI impI ballI)
  fix s' assume "FS_write os memqt p d s = (Inr (), s')"
  then show "mem_content s' p = Some d"
    by (rule FS_write_success_content)
next
  fix e s' k assume "FS_write os memqt p d s = (Inl e, s')"
  then show "lookup s' k = lookup s k \<or>
             (lookup s k = None \<and> lookup s' k = Some Dir \<and>
              k \<in> set (made_directories os s p))"
    by (rule FS_write_failure_lookup)
next
  fix st assume "st \<in> set (snd (FS_write_steps os memqt p d s))"
  then show "lookup st (key s p) = lookup s (key s p) \<or>
             (lookup s (key s p) = None \<and> lookup st (key s p) = Some Dir \<and>
              key s p \<in> set (made_directories os s p)) \<or>
             (\<exists>m. lookup st (key s p) = Some (File d m))"
    by (rule FS_write_steps_lookup)
qed

text \<open>
  Claim C1 as it is stated fails where \<open>p\<close> names the directory that the call makes. In the
  example state nothing is at \<^verbatim>\<open>/home/user/new\<close>; \<^verbatim>\<open>FS::write("new/", "A")\<close> makes the
  directory \<^verbatim>\<open>new\<close>, cannot open it for writing and throws; the directory stays, so the
  destination is not left in its prior state.
\<close>

theorem FS_write_failure_leaves_directory:
  "fst (FS_write Linux memqt (QS ''new/'') [0x41] example_fs)
     = Inl (CouldntOpenForWriting (QS ''new/'')) \<and>
   key example_fs (QS ''new/'') = QS ''/home/user/new'' \<and>
   lookup example_fs (QS ''/home/user/new'') = None \<and>
   \<not> mem_exists example_fs (QS ''new/'') \<and>
   lookup (snd (FS_write Linux memqt (QS ''new/'') [0x41] example_fs)) (QS ''/home/user/new'')
     = Some Dir \<and>
   mem_exists (snd (FS_write Linux memqt (QS ''new/'') [0x41] example_fs)) (QS ''new/'')"
  by code_simp

lemma follow_links_File:
  "lookup s k = Some (File b m) \<Longrightarrow> follow_links n s k = Some (File b m)"
  by (cases n) simp_all

lemma FS_read_file:
  assumes l: "lookup s (key s p) = Some (File d m)" and len: "length d < 2 ^ 31"
  shows "FS_read memqt p s =
           (if and m 0x4000 = 0 then Some (Inl (UnableToOpenForReading p))
            else if \<not> delivers s (length d) then Some (Inl (ErrorReadingData p))
            else Some (Inr d))"
proof -
  from l have st: "stat s p = Some (File d m)"
    by (simp add: stat_def follow_links_File)
  have "sint (word_of_nat (length d) :: 32 word) = int (length d)"
    using len by (simp add: signed_of_nat signed_take_bit_int_eq_self)
  then have buf: "nat (sint (word_of_nat (length d) :: 32 word)) = length d"
    by simp
  show ?thesis
    by (cases "read_limit s")
       (auto simp add: FS_read_def memqt_def mem_openRead_def mem_size_def mem_read_def
          delivers_def st buf Let_def min_def)
qed

text \<open>
  Claim C2, amended. For every path \<open>p\<close> and every buffer \<open>d\<close>, the empty one included:
  when \<^verbatim>\<open>FS::write(p, d)\<close> has returned, \<^verbatim>\<open>FS::read(p)\<close> returns a buffer equal to \<open>d\<close>,
  provided that the file can be opened for reading (it can, unless a file was at \<open>p\<close>
  before whose permissions, which the write keeps, do not let its owner read it) and that
  the device delivers the bytes of \<open>d\<close>. Otherwise \<^verbatim>\<open>FS::read(p)\<close> throws: it cannot open the
  file in the first case and reads fewer bytes than the size of the file in the second.
  The size of a \<^verbatim>\<open>QByteArray\<close> is an \<^verbatim>\<open>int\<close>, so every buffer is shorter than \<open>2 ^ 31\<close> bytes.
\<close>

theorem FS_write_then_read:
  "FS_write os memqt p d s = (Inr (), s') \<Longrightarrow> length d < 2 ^ 31 \<Longrightarrow>
   FS_read memqt p s' =
     (if \<not> readable_after_write s p then Some (Inl (UnableToOpenForReading p))
      else if \<not> delivers s (length d) then Some (Inl (ErrorReadingData p))
      else Some (Inr d))"
proof -
  assume w: "FS_write os memqt p d s = (Inr (), s')" and len: "length d < 2 ^ 31"
  let ?m = "case lookup s (key s p) of Some (File b m) \<Rightarrow> m | _ \<Rightarrow> (0x6644 :: 32 word)"
  from FS_write_success_node [OF w]
  have c: "cwd s' = cwd s" and r: "read_limit s' = read_limit s"
    and l: "lookup s' (key s p) = Some (File d ?m)"
    by simp_all
  from c have k: "key s' p = key s p"
    by (simp add: key_def)
  from l k have "lookup s' (key s' p) = Some (File d ?m)"
    by simp
  from FS_read_file [OF this len]
  have "FS_read memqt p s' =
          (if and ?m 0x4000 = 0 then Some (Inl (UnableToOpenForReading p))
           else if \<not> delivers s' (length d) then Some (Inl (ErrorReadingData p))
           else Some (Inr d))" .
  moreover have "delivers s' (length d) = delivers s (length d)"
    using r by (simp add: delivers_def)
  moreover have "(and ?m 0x4000 = 0) = (\<not> readable_after_write s p)"
    by (simp add: readable_after_write_def split: option.splits node.splits)
  ultimately show ?thesis
    by simp
qed

text \<open>
  Claim C2 as it is stated fails for a file that its owner may write but not read. The
  write replaces \<^verbatim>\<open>/home/user/w.bin\<close> and returns; the file keeps its permissions, so the
  read that follows cannot open it and throws.
\<close>

theorem FS_write_then_read_unreadable:
  "fst (FS_write Linux memqt (QS ''w.bin'') [0x42] writeonly_fs) = Inr () \<and>
   lookup (snd (FS_write Linux memqt (QS ''w.bin'') [0x42] writeonly_fs))
     (QS ''/home/user/w.bin'') = Some (File [0x42] 0x2000) \<and>
   FS_read memqt (QS ''w.bin'') (snd (FS_write Linux memqt (QS ''w.bin'') [0x42] writeonly_fs))
     = Some (Inl (UnableToOpenForReading (QS ''w.bin'')))"
  by code_simp

theorem FS_write_atomic_witness:
  "fst (FS_write Linux memqt (QS ''/tmp/x/y.txt'') [0x68, 0x65, 0x6C, 0x6C, 0x6F] example_fs) = Inr () \<and>
   mem_content example_fs (QS ''/tmp/x/y.txt'') = None \<and>
   mem_content (snd (FS_write Linux memqt (QS ''/tmp/x/y.txt'') [0x68, 0x65, 0x6C, 0x6C, 0x6F] example_fs))
     (QS ''/tmp/x/y.txt'') = Some [0x68, 0x65, 0x6C, 0x6C, 0x6F] \<and>
   fst (FS_write Linux memqt (QS ''src/a.txt'') [0x68, 0x65, 0x6C, 0x6C, 0x6F] (example_fs\<lparr>space := 3\<rparr>))
     = Inl (ErrorWritingData (QS ''src/a.txt'')) \<and>
   lookup (example_fs\<lparr>space := 3\<rparr>) (QS ''/home/user/src/a.txt'') = Some (File [0x68, 0x69] 0x6644) \<and>
   lookup (snd (FS_write Linux memqt (QS ''src/a.txt'') [0x68, 0x65, 0x6C, 0x6C, 0x6F]
                  (example_fs\<lparr>space := 3\<rparr>)))
     (QS ''/home/user/src/a.txt'') = Some (File [0x68, 0x69] 0x6644)"
proof -
  let ?hello = "[0x68, 0x65, 0x6C, 0x6C, 0x6F] :: QByteArray"
  let ?w1 = "FS_write Linux memqt (QS ''/tmp/x/y.txt'') ?hello example_fs"
  let ?w2 = "FS_write Linux memqt (QS ''src/a.txt'') ?hello (example_fs\<lparr>space := 3\<rparr>)"
  have 1: "fst ?w1 = Inr ()"
    by code_simp
  have 2: "mem_content example_fs (QS ''/tmp/x/y.txt'') = None"
    by code_simp
  from 1 have "?w1 = (Inr (), snd ?w1)"
    by (simp add: prod_eq_iff)
  with FS_write_atomic [of Linux "QS ''/tmp/x/y.txt''" ?hello example_fs]
  have 3: "mem_content (snd ?w1) (QS ''/tmp/x/y.txt'') = Some ?hello"
    by blast
  have 4: "fst ?w2 = Inl (ErrorWritingData (QS ''src/a.txt''))"
    by code_simp
  have 5: "lookup (example_fs\<lparr>space := 3\<rparr>) (QS ''/home/user/src/a.txt'')
             = Some (File [0x68, 0x69] 0x6644)"
    by code_simp
  from 4 have "?w2 = (Inl (ErrorWritingData (QS ''src/a.txt'')), snd ?w2)"
    by (simp add: prod_eq_iff)
  note kept = FS_write_atomic [of Linux "QS ''src/a.txt''" ?hello "example_fs\<lparr>space := 3\<rparr>",
      THEN conjunct2, THEN conjunct1, rule_format, OF this]
  from kept [of "QS ''/home/user/src/a.txt''"] 5 have 6: "lookup (snd ?w2) (QS ''/home/user/src/a.txt'') = Some (File [0x68, 0x69] 0x6644)"
    by simp
  from 1 2 3 4 5 6 show ?thesis by (intro conjI)
qed

theorem FS_write_then_read_witness:
  "fst (FS_write Linux memqt (QS ''/tmp/x/y.txt'') [0x68, 0x65, 0x6C, 0x6C, 0x6F] example_fs) = Inr () \<and>
   FS_read memqt (QS ''/tmp/x/y.txt'')
     (snd (FS_write Linux memqt (QS ''/tmp/x/y.txt'') [0x68, 0x65, 0x6C, 0x6C, 0x6F] example_fs))
     = Some (Inr [0x68, 0x65, 0x6C, 0x6C, 0x6F]) \<and>
   fst (FS_write Linux memqt (QS ''src/a.txt'') [] example_fs) = Inr () \<and>
   FS_read memqt (QS ''src/a.txt'') (snd (FS_write Linux memqt (QS ''src/a.txt'') [] example_fs))
     = Some (Inr []) \<and>
   fst (FS_write Linux memqt (QS ''src/a.txt'') [0x68, 0x65, 0x6C, 0x6C, 0x6F]
          (example_fs\<lparr>read_limit := Some 3\<rparr>)) = Inr () \<and>
   FS_read memqt (QS ''src/a.txt'')
     (snd (FS_write Linux memqt (QS ''src/a.txt'') [0x68, 0x65, 0x6C, 0x6C, 0x6F]
             (example_fs\<lparr>read_limit := Some 3\<rparr>)))
     = Some (Inl (ErrorReadingData (QS ''src/a.txt'')))"
proof -
  let ?hello = "[0x68, 0x65, 0x6C, 0x6C, 0x6F] :: QByteArray"
  let ?slow = "example_fs\<lparr>read_limit := Some 3\<rparr>"
  let ?w1 = "FS_write Linux memqt (QS ''/tmp/x/y.txt'') ?hello example_fs"
  let ?w2 = "FS_write Linux memqt (QS ''src/a.txt'') [] example_fs"
  let ?w3 = "FS_write Linux memqt (QS ''src/a.txt'') ?hello ?slow"
  have r1: "readable_after_write example_fs (QS ''/tmp/x/y.txt'')"
    and d1: "delivers example_fs (length ?hello)"
    and r2: "readable_after_write example_fs (QS ''src/a.txt'')"
    and d2: "delivers example_fs (length ([] :: QByteArray))"
    and r3: "readable_after_write ?slow (QS ''src/a.txt'')"
    and d3: "\<not> delivers ?slow (length ?hello)"
    by code_simp+
  have 1: "fst ?w1 = Inr ()"
    by code_simp
  then have "?w1 = (Inr (), snd ?w1)"
    by (simp add: prod_eq_iff)
  from FS_write_then_read [OF this] r1 d1
  have 2: "FS_read memqt (QS ''/tmp/x/y.txt'') (snd ?w1) = Some (Inr ?hello)"
    by simp
  have 3: "fst ?w2 = Inr ()"
    by code_simp
  then have "?w2 = (Inr (), snd ?w2)"
    by (simp add: prod_eq_iff)
  from FS_write_then_read [OF this] r2 d2
  have 4: "FS_read memqt (QS ''src/a.txt'') (snd ?w2) = Some (Inr [])"
    by simp
  have 5: "fst ?w3 = Inr ()"
    by code_simp
  then have "?w3 = (Inr (), snd ?w3)"
    by (simp add: prod_eq_iff)
  from FS_write_then_read [OF this] r3 d3
  have 6: "FS_read memqt (QS ''src/a.txt'') (snd ?w3) = Some (Inl (ErrorReadingData (QS ''src/a.txt'')))"
    by simp
  from 1 2 3 4 5 6 show ?thesis by (intro conjI)
qed

end
